theory Spec2Isabelle
  imports Main "HOL-Library.Sublist" "HOL-Library.AList"
begin

section \<open>Python strings\<close>

text \<open>
  A Python \<open>str\<close> is a sequence of code points. A \<^typ>\<open>char\<close> stands for the code point
  with the same number, so a \<^typ>\<open>string\<close> is a Python string over U+0000 .. U+00FF
  (ASCII and Latin-1). The string methods below are Python's own, on that range.
\<close>

definition is_space :: "char \<Rightarrow> bool" where
  \<comment> \<open>the characters \<open>str.strip()\<close> removes and \<open>str.isspace()\<close> accepts\<close>
  "is_space c =
     (let n = (of_char c :: nat)
      in (9 \<le> n \<and> n \<le> 13) \<or> (28 \<le> n \<and> n \<le> 32) \<or> n = 133 \<or> n = 160)"

definition is_upper :: "char \<Rightarrow> bool" where
  \<comment> \<open>A..Z and the Latin-1 capitals (U+00C0..U+00DE without the multiplication sign)\<close>
  "is_upper c =
     (let n = (of_char c :: nat)
      in (65 \<le> n \<and> n \<le> 90) \<or> (192 \<le> n \<and> n \<le> 222 \<and> n \<noteq> 215))"

definition char_lower :: "char \<Rightarrow> char" where
  "char_lower c = (if is_upper c then char_of ((of_char c :: nat) + 32) else c)"

definition str_lower :: "string \<Rightarrow> string" where
  \<comment> \<open>\<open>s.lower()\<close>\<close>
  "str_lower s = map char_lower s"

definition str_lstrip :: "string \<Rightarrow> string" where
  "str_lstrip s = dropWhile is_space s"

definition str_rstrip :: "string \<Rightarrow> string" where
  "str_rstrip s = rev (dropWhile is_space (rev s))"

definition str_strip :: "string \<Rightarrow> string" where
  \<comment> \<open>\<open>s.strip()\<close>\<close>
  "str_strip s = str_lstrip (str_rstrip s)"

fun str_contains :: "string \<Rightarrow> string \<Rightarrow> bool" where
  \<comment> \<open>\<open>sub in s\<close>\<close>
  "str_contains sub [] = (sub = [])"
| "str_contains sub (c # cs) = (prefix sub (c # cs) \<or> str_contains sub cs)"

fun str_replace :: "string \<Rightarrow> string \<Rightarrow> string \<Rightarrow> string" where
  \<comment> \<open>\<open>s.replace(old, new)\<close>: the occurrences of \<open>old\<close>, left to right, not overlapping\<close>
  "str_replace old new [] = (if old = [] then new else [])"
| "str_replace old new (c # cs) =
     (if old = [] then new @ concat (map (\<lambda>x. x # new) (c # cs))
      else if prefix old (c # cs)
        then new @ str_replace old new (drop (length old - 1) cs)
      else c # str_replace old new cs)"

fun str_split :: "char \<Rightarrow> string \<Rightarrow> string list" where
  \<comment> \<open>\<open>s.split(sep)\<close> for a one-character separator\<close>
  "str_split sep [] = [[]]"
| "str_split sep (c # cs) =
     (if c = sep then [] # str_split sep cs
      else (case str_split sep cs of w # ws \<Rightarrow> (c # w) # ws | [] \<Rightarrow> [[c]]))"

definition str_split_once :: "char \<Rightarrow> string \<Rightarrow> string \<times> string" where
  \<comment> \<open>\<open>a, b = s.split(sep, 1)\<close> for a string that contains the separator\<close>
  "str_split_once sep s =
     (takeWhile (\<lambda>c. c \<noteq> sep) s, drop 1 (dropWhile (\<lambda>c. c \<noteq> sep) s))"

fun str_join :: "string \<Rightarrow> string list \<Rightarrow> string" where
  \<comment> \<open>\<open>sep.join(xs)\<close>\<close>
  "str_join sep [] = []"
| "str_join sep [x] = x"
| "str_join sep (x # y # ys) = x @ sep @ str_join sep (y # ys)"

section \<open>Column names\<close>

text \<open>
  The loop of the normalizer replaces \<open>"__"\<close> by \<open>"_"\<close> as long as the name contains
  \<open>"__"\<close>. Each round makes the name shorter, which is why the loop ends.
\<close>

lemma str_replace_shorter:
  "length new \<le> length old \<Longrightarrow> length (str_replace old new s) \<le> length s"
proof (induction old new s rule: str_replace.induct)
  case (1 old new)
  then show ?case by auto
next
  case (2 old new c cs)
  show ?case
  proof (cases "old = []")
    case True
    with 2 show ?thesis by simp
  next
    case False
    note nonempty = this
    show ?thesis
    proof (cases "prefix old (c # cs)")
      case True
      then have "length old \<le> Suc (length cs)"
        using prefix_length_le by fastforce
      moreover have "length (str_replace old new (drop (length old - 1) cs))
          \<le> length cs - (length old - 1)"
        using 2 nonempty True by simp
      ultimately show ?thesis
        using 2(3) nonempty True by (cases old) auto
    next
      case False
      with 2 nonempty show ?thesis by simp
    qed
  qed
qed

lemma str_replace_strictly_shorter:
  "str_contains old s \<Longrightarrow> length new < length old
    \<Longrightarrow> length (str_replace old new s) < length s"
proof (induction old new s rule: str_replace.induct)
  case (1 old new)
  then show ?case by simp
next
  case (2 old new c cs)
  from 2(4) have nonempty: "old \<noteq> []" by auto
  show ?case
  proof (cases "prefix old (c # cs)")
    case True
    then have "length old \<le> Suc (length cs)"
      using prefix_length_le by fastforce
    moreover have "length (str_replace old new (drop (length old - 1) cs))
        \<le> length cs - (length old - 1)"
      using str_replace_shorter [of new old "drop (length old - 1) cs"] 2(4) by simp
    ultimately show ?thesis
      using 2(4) nonempty True by (cases old) auto
  next
    case False
    with 2 nonempty show ?thesis by simp
  qed
qed

function collapse_underscores :: "string \<Rightarrow> string" where
  \<comment> \<open>\<open>while "__" in name: name = name.replace("__", "_")\<close>\<close>
  "collapse_underscores name =
     (if str_contains ''__'' name
      then collapse_underscores (str_replace ''__'' ''_'' name)
      else name)"
  by pat_completeness auto

termination
  by (relation "measure length") (auto intro: str_replace_strictly_shorter)

declare collapse_underscores.simps [simp del]

definition normalize_col_name :: "string \<Rightarrow> string" where
  "normalize_col_name name0 =
     (let name = str_strip name0;
          name = str_replace ''.'' ''_''
                   (str_replace [CHR 0x5C] ''_''
                     (str_replace ''/'' ''_''
                       (str_replace ''-'' ''_''
                         (str_replace '' '' ''_'' name))));
          name = collapse_underscores name
      in str_lower name)"

section \<open>Effects: log records and file access\<close>

text \<open>
  An exception is a value. The program tells exceptions apart only by where they are caught,
  so an exception carries its message: \<open>ValueError\<close> is the one the program raises itself,
  \<open>LibraryError\<close> stands for any \<open>Exception\<close> raised inside pandas or openpyxl.
\<close>

datatype exn = ValueError string | LibraryError string

datatype level = INFO | WARNING | ERROR

datatype log_arg = AStr string | AInt int | AExn exn

text \<open>
  What a run does to the outside world, in order: the records it hands to the logger
  (level, format string, arguments; every level used is at or above the logger's threshold),
  the files it reads with \<open>pd.read_csv\<close> and the file it writes with \<open>to_excel\<close>.
  A path is the string given on the command line.
\<close>

datatype event =
    Log level string "log_arg list"
  | ReadCsv string
  | ToExcel string

section \<open>The rename specification\<close>

text \<open>
  A Python \<open>dict\<close> is an association list in insertion order; \<open>d[k] = v\<close> is
  \<^const>\<open>AList.update\<close> (a present key keeps its place, a new one goes to the end).
\<close>

definition rename_step ::
  "event list \<times> (string \<times> string) list \<Rightarrow> string \<Rightarrow> event list \<times> (string \<times> string) list" where
  \<comment> \<open>the body of \<open>for pair in pairs\<close>\<close>
  "rename_step st pair =
     (let (evs, mapping) = st
      in if \<not> str_contains '':'' pair then
           (evs @ [Log WARNING ''Ignoring invalid rename pair: %s (expected OLD:NEW)'' [AStr pair]],
            mapping)
         else
           (let (old, new) = str_split_once (CHR '':'') pair
            in (evs, AList.update (normalize_col_name old) (str_strip new) mapping)))"

definition parse_rename_arg :: "string option \<Rightarrow> event list \<times> (string \<times> string) list" where
  "parse_rename_arg arg =
     (case arg of
        None \<Rightarrow> ([], [])
      | Some a \<Rightarrow>
          if a = [] then ([], [])
          else foldl rename_step ([], [])
                 (map str_strip (filter (\<lambda>p. str_strip p \<noteq> []) (str_split (CHR '','') a))))"

section \<open>Tables\<close>

text \<open>
  The table of the program is a pandas \<open>DataFrame\<close>, which is not part of the repository.
  It is modelled as the ordered list of its columns; a column has a label, a dtype and its
  cells, one per row. \<open>Null\<close> is pandas' missing value (\<open>NaN\<close>, \<open>None\<close>, \<open>NaT\<close>).
\<close>

datatype cell = Null | Str string | Num int | Flag bool | Timestamp int

datatype dtype = Object | Int64 | Float64 | Boolean | Datetime64

record column =
  col_name :: string
  col_dtype :: dtype
  col_cells :: "cell list"

type_synonym dataframe = "column list"

definition columns :: "dataframe \<Rightarrow> string list" where
  \<comment> \<open>\<open>df.columns\<close>\<close>
  "columns df = map col_name df"

definition nrows :: "dataframe \<Rightarrow> nat" where
  \<comment> \<open>\<open>len(df)\<close>; every column has that many cells\<close>
  "nrows df = (case df of [] \<Rightarrow> 0 | c # _ \<Rightarrow> length (col_cells c))"

definition dict_comprehension :: "('a \<times> 'b) list \<Rightarrow> ('a \<times> 'b) list" where
  \<comment> \<open>\<open>{k: v for ...}\<close>: the items are stored one after the other\<close>
  "dict_comprehension items = foldl (\<lambda>m (k, v). AList.update k v m) [] items"

definition df_rename :: "dataframe \<Rightarrow> (string \<times> string) list \<Rightarrow> dataframe" where
  \<comment> \<open>Modelled from the spec: \<open>df.rename(columns=mapper)\<close> relabels the columns whose
      label is a key of the mapper and leaves the others.\<close>
  "df_rename df mapper =
     map (\<lambda>col. case map_of mapper (col_name col) of
                  Some new \<Rightarrow> col\<lparr>col_name := new\<rparr>
                | None \<Rightarrow> col) df"

definition getitem :: "dataframe \<Rightarrow> string \<Rightarrow> column list" where
  \<comment> \<open>\<open>df[c]\<close>: the columns that carry the label; one column is a \<open>Series\<close>, several
      (a duplicated label) are a \<open>DataFrame\<close>\<close>
  "getitem df c = filter (\<lambda>col. col_name col = c) df"

definition setitem :: "dataframe \<Rightarrow> string \<Rightarrow> dtype \<Rightarrow> cell list \<Rightarrow> dataframe" where
  \<comment> \<open>\<open>df[c] = series\<close> for a label that is in \<open>df.columns\<close>\<close>
  "setitem df c dt cs =
     map (\<lambda>col. if col_name col = c then col\<lparr>col_dtype := dt, col_cells := cs\<rparr> else col) df"

definition cell_at :: "cell list \<Rightarrow> nat \<Rightarrow> cell" where
  \<comment> \<open>the cell of a column in row \<open>i\<close>\<close>
  "cell_at cs i = (if i < length cs then cs ! i else Null)"

definition non_null_count :: "dataframe \<Rightarrow> nat \<Rightarrow> nat" where
  \<comment> \<open>the number of cells of row \<open>i\<close> that are not missing\<close>
  "non_null_count df i = length (filter (\<lambda>col. cell_at (col_cells col) i \<noteq> Null) df)"

definition keep_rows :: "dataframe \<Rightarrow> (nat \<Rightarrow> bool) \<Rightarrow> dataframe" where
  \<comment> \<open>the table without the rows whose index \<open>keep\<close> rejects\<close>
  "keep_rows df keep =
     map (\<lambda>col. col\<lparr>col_cells :=
            map fst (filter (\<lambda>(c, i). keep i)
                       (zip (col_cells col) [0 ..< length (col_cells col)]))\<rparr>) df"

definition dropna_all :: "dataframe \<Rightarrow> dataframe" where
  \<comment> \<open>Modelled from the spec: \<open>df.dropna(how="all")\<close> removes any row where every
      column is null/missing.\<close>
  "dropna_all df = keep_rows df (\<lambda>i. 0 < non_null_count df i)"

definition dropna_any_rows :: "dataframe \<Rightarrow> dataframe" where
  \<comment> \<open>Modelled from the spec: \<open>df.dropna(how="any")\<close> removes any row containing at
      least one null/missing value.\<close>
  "dropna_any_rows df = keep_rows df (\<lambda>i. non_null_count df i = length df)"

definition dropna_thresh_rows :: "dataframe \<Rightarrow> int \<Rightarrow> dataframe" where
  \<comment> \<open>Modelled from the spec: \<open>df.dropna(thresh=n)\<close> removes rows with fewer non-null
      values than the threshold.\<close>
  "dropna_thresh_rows df n = keep_rows df (\<lambda>i. n \<le> int (non_null_count df i))"

definition fillna :: "dataframe \<Rightarrow> string \<Rightarrow> dataframe" where
  \<comment> \<open>Modelled from the spec: \<open>df.fillna(value)\<close> replaces all remaining null/missing
      cells (in every column) with that literal value, as-is; a column that receives the
      string becomes an object column.\<close>
  "fillna df v =
     map (\<lambda>col. col\<lparr>col_dtype := (if Null \<in> set (col_cells col) then Object else col_dtype col),
                    col_cells := map (\<lambda>c. if c = Null then Str v else c) (col_cells col)\<rparr>) df"

definition strip_cell :: "cell \<Rightarrow> cell" where
  \<comment> \<open>one element of \<open>s.str.strip()\<close>: a string is trimmed, anything else gives \<open>NaN\<close>\<close>
  "strip_cell c = (case c of Str s \<Rightarrow> Str (str_strip s) | _ \<Rightarrow> Null)"

definition is_text :: "cell \<Rightarrow> bool" where
  \<comment> \<open>a value of a text column: a string, or missing\<close>
  "is_text c = (case c of Str s \<Rightarrow> True | Null \<Rightarrow> True | _ \<Rightarrow> False)"

text \<open>
  The environment of a run: the file system and the library calls whose outcome the
  program's own code does not determine.
\<close>

record env =
  path_exists :: "string \<Rightarrow> bool"
  pd_read_csv :: "string \<Rightarrow> exn + dataframe"
  pd_concat :: "dataframe list \<Rightarrow> exn + dataframe"
  str_accessor_fault :: "cell list \<Rightarrow> exn option"
  to_datetime_fault :: "cell list \<Rightarrow> exn option"
  parse_datetime :: "cell list \<Rightarrow> cell \<Rightarrow> int option"
  to_excel_fault :: "dataframe \<Rightarrow> string \<Rightarrow> exn option"

definition series_str_strip :: "env \<Rightarrow> column \<Rightarrow> exn + cell list" where
  \<comment> \<open>Modelled from the spec: \<open>s.str.strip()\<close> replaces each value with its
      whitespace-trimmed form. Only an object column has the \<open>.str\<close> accessor; on an object
      column that holds something else than text the accessor may refuse the column, and
      whether it does is the library's.\<close>
  "series_str_strip e col =
     (if col_dtype col \<noteq> Object then
        Inl (LibraryError ''Can only use .str accessor with string values!'')
      else if list_all is_text (col_cells col) then Inr (map strip_cell (col_cells col))
      else (case str_accessor_fault e (col_cells col) of
              Some x \<Rightarrow> Inl x
            | None \<Rightarrow> Inr (map strip_cell (col_cells col))))"

definition setitem_columns :: "dataframe \<Rightarrow> string list \<Rightarrow> column list \<Rightarrow> exn + dataframe" where
  \<comment> \<open>\<open>df[keys] = value\<close> for a \<open>DataFrame\<close> value: the columns of the value take the place
      of the columns that carry their labels. When a key is carried by several columns of
      \<open>df\<close>, keys and columns no longer match one to one and pandas raises.\<close>
  "setitem_columns df keys value =
     (if list_all (\<lambda>k. length (getitem df k) = 1) keys then
        Inr (map (\<lambda>col. case find (\<lambda>v. col_name v = col_name col) value of
                           Some v \<Rightarrow> v
                         | None \<Rightarrow> col) df)
      else Inl (ValueError ''Columns must be same length as key''))"

definition coerce_cell :: "env \<Rightarrow> cell list \<Rightarrow> cell \<Rightarrow> cell" where
  \<comment> \<open>Modelled from the spec: one value under \<open>pd.to_datetime(s, errors="coerce")\<close>,
      \<open>cs\<close> being the column it stands in. A missing value stays missing and a date/time
      stays as it is; any other value is parsed, and any value that fails to parse becomes
      a null/missing marker. The parser is the library's.\<close>
  "coerce_cell e cs c =
     (case c of
        Null \<Rightarrow> Null
      | Timestamp t \<Rightarrow> Timestamp t
      | _ \<Rightarrow> (case parse_datetime e cs c of Some t \<Rightarrow> Timestamp t | None \<Rightarrow> Null))"

definition pd_to_datetime :: "env \<Rightarrow> column list \<Rightarrow> exn + cell list" where
  \<comment> \<open>Modelled from the spec: \<open>pd.to_datetime(df[c], errors="coerce")\<close> attempts to
      parse every value of the column as a date/time. The call as a whole may still
      raise; whether it does is the library's. Of a \<open>DataFrame\<close> the library assembles
      dates from columns labelled year, month and day, which columns that share one label
      cannot be: it raises.\<close>
  "pd_to_datetime e sel =
     (case sel of
        [col] \<Rightarrow>
          (case to_datetime_fault e (col_cells col) of
             Some x \<Rightarrow> Inl x
           | None \<Rightarrow> Inr (map (coerce_cell e (col_cells col)) (col_cells col)))
      | _ \<Rightarrow>
          Inl (ValueError
            ''to assemble mappings requires at least that [year, month, day] be specified''))"

section \<open>The program\<close>

definition auto_detect_date_cols :: "dataframe \<Rightarrow> string list" where
  "auto_detect_date_cols df =
     filter (\<lambda>c. str_contains ''date'' (str_lower c) \<or> str_contains ''time'' (str_lower c)
                \<or> str_contains ''created'' (str_lower c) \<or> str_contains ''updated'' (str_lower c))
       (columns df)"

definition parse_date_col :: "env \<Rightarrow> event list \<times> dataframe \<Rightarrow> string \<Rightarrow> event list \<times> dataframe" where
  \<comment> \<open>the body of \<open>for c in cols\<close> in \<open>try_parse_dates\<close>\<close>
  "parse_date_col e st c =
     (let (evs, df) = st
      in if c \<notin> set (columns df) then
           (evs @ [Log WARNING (''Date column '' @ [CHR 0x27] @ ''%s'' @ [CHR 0x27]
                     @ '' not found in DataFrame columns.'') [AStr c]], df)
         else
           (case pd_to_datetime e (getitem df c) of
              Inr parsed \<Rightarrow>
                (evs @ [Log INFO ''Parsed dates in column: %s'' [AStr c]],
                 setitem df c Datetime64 parsed)
            | Inl x \<Rightarrow>
                (evs @ [Log WARNING ''Failed to parse dates in column %s: %s'' [AStr c, AExn x]],
                 df)))"

definition try_parse_dates :: "env \<Rightarrow> dataframe \<Rightarrow> string list \<Rightarrow> event list \<times> dataframe" where
  "try_parse_dates e df cols = foldl (parse_date_col e) ([], df) cols"

fun read_files :: "env \<Rightarrow> string list \<Rightarrow> dataframe list \<Rightarrow> event list \<times> (exn + dataframe list)" where
  \<comment> \<open>the loop \<open>for f in files\<close> of \<open>load_and_concat\<close>; the handler logs and re-raises\<close>
  "read_files e [] dfs = ([], Inr dfs)"
| "read_files e (f # fs) dfs =
     (case pd_read_csv e f of
        Inr df \<Rightarrow>
          (let (evs, r) = read_files e fs (dfs @ [df])
           in (Log INFO ''Reading CSV: %s'' [AStr f] # ReadCsv f # evs, r))
      | Inl x \<Rightarrow>
          ([Log INFO ''Reading CSV: %s'' [AStr f], ReadCsv f,
            Log ERROR ''Failed to read %s: %s'' [AStr f, AExn x]], Inl x))"

definition load_and_concat :: "env \<Rightarrow> string list \<Rightarrow> event list \<times> (exn + dataframe)" where
  "load_and_concat e files =
     (let (evs, r) = read_files e files []
      in case r of
           Inl x \<Rightarrow> (evs, Inl x)
         | Inr dfs \<Rightarrow>
             if dfs = [] then
               (evs, Inl (ValueError ''No dataframes loaded from the provided files.''))
             else if length dfs = 1 then (evs, Inr (hd dfs))
             else (evs @ [Log INFO ''Concatenating %d files'' [AInt (int (length dfs))]],
                   pd_concat e dfs))"

definition normalize_columns :: "dataframe \<Rightarrow> event list \<times> dataframe" where
  \<comment> \<open>\<open>process_dataframe\<close>, step 1\<close>
  "normalize_columns df =
     (let orig_cols = columns df;
          normalized_map = dict_comprehension (map (\<lambda>c. (c, normalize_col_name c)) orig_cols)
      in ([Log INFO ''Normalized column names.'' []], df_rename df normalized_map))"

definition apply_rename_map :: "dataframe \<Rightarrow> (string \<times> string) list \<Rightarrow> event list \<times> dataframe" where
  \<comment> \<open>\<open>process_dataframe\<close>, step 2\<close>
  "apply_rename_map df rename_map =
     (if rename_map \<noteq> [] then
        (let applicable = dict_comprehension (filter (\<lambda>(k, v). k \<in> set (columns df)) rename_map)
         in if applicable \<noteq> [] then
              ([Log INFO ''Applied %d column renames.'' [AInt (int (length applicable))]],
               df_rename df applicable)
            else ([Log WARNING ''No rename mappings matched existing columns.'' []], df))
      else ([], df))"

fun apply_str_strip :: "env \<Rightarrow> column list \<Rightarrow> exn + column list" where
  \<comment> \<open>\<open>frame.apply(lambda s: s.str.strip())\<close>: the columns of the frame one after the other\<close>
  "apply_str_strip e [] = Inr []"
| "apply_str_strip e (col # cols) =
     (case series_str_strip e col of
        Inl x \<Rightarrow> Inl x
      | Inr stripped \<Rightarrow>
          (case apply_str_strip e cols of
             Inl x \<Rightarrow> Inl x
           | Inr rest \<Rightarrow> Inr (col\<lparr>col_cells := stripped\<rparr> # rest)))"

definition trim_strings :: "env \<Rightarrow> dataframe \<Rightarrow> bool \<Rightarrow> event list \<times> (exn + dataframe)" where
  \<comment> \<open>\<open>process_dataframe\<close>, step 3. \<open>obj_cols\<close> are the labels of the object columns and
      \<open>df[obj_cols]\<close> holds, for each of these labels in turn, every column that carries it.\<close>
  "trim_strings e df strip_strings =
     (if strip_strings then
        (let obj_cols = map col_name (filter (\<lambda>col. col_dtype col = Object) df)
         in if 0 < length obj_cols then
              (case apply_str_strip e (concat (map (getitem df) obj_cols)) of
                 Inl x \<Rightarrow> ([], Inl x)
               | Inr value \<Rightarrow>
                   (case setitem_columns df obj_cols value of
                      Inl x \<Rightarrow> ([], Inl x)
                    | Inr df' \<Rightarrow>
                        ([Log INFO ''Stripped whitespace from %d string columns.''
                            [AInt (int (length obj_cols))]], Inr df')))
            else ([], Inr df))
      else ([], Inr df))"

definition parse_dates_step :: "env \<Rightarrow> dataframe \<Rightarrow> string list \<Rightarrow> event list \<times> dataframe" where
  \<comment> \<open>\<open>process_dataframe\<close>, step 4\<close>
  "parse_dates_step e df date_cols =
     (if date_cols \<noteq> [] then try_parse_dates e df date_cols else ([], df))"

definition drop_missing ::
  "dataframe \<Rightarrow> bool \<Rightarrow> int option \<Rightarrow> event list \<times> dataframe" where
  \<comment> \<open>\<open>process_dataframe\<close>, step 5 up to the fill\<close>
  "drop_missing df0 dropna_any dropna_thresh =
     (let n_before = nrows df0;
          df1 = dropna_all df0;
          n_after = nrows df1;
          evs1 = (if n_after < n_before
                  then [Log INFO ''Dropped %d rows that were entirely empty.''
                          [AInt (int n_before - int n_after)]]
                  else []);
          (evs2, df2) =
            (if dropna_any then
               (let b = nrows df1; d = dropna_any_rows df1
                in ([Log INFO ''Dropped %d rows with any missing values.''
                       [AInt (int b - int (nrows d))]], d))
             else ([], df1));
          (evs3, df3) =
            (case dropna_thresh of
               None \<Rightarrow> ([], df2)
             | Some n \<Rightarrow>
                 if n \<noteq> 0 then
                   (let b = nrows df2; d = dropna_thresh_rows df2 n
                    in ([Log INFO ''Dropped %d rows with less than %d non-null values.''
                           [AInt (int b - int (nrows d)), AInt n]], d))
                 else ([], df2))
      in (evs1 @ evs2 @ evs3, df3))"

definition fill_missing :: "dataframe \<Rightarrow> string option \<Rightarrow> event list \<times> dataframe" where
  \<comment> \<open>\<open>process_dataframe\<close>, the end of step 5\<close>
  "fill_missing df fillna_value =
     (case fillna_value of
        Some v \<Rightarrow> ([Log INFO ''Filled remaining missing values with: %s'' [AStr v]], fillna df v)
      | None \<Rightarrow> ([], df))"

definition process_dataframe ::
  "env \<Rightarrow> dataframe \<Rightarrow> string list \<Rightarrow> (string \<times> string) list \<Rightarrow> string option \<Rightarrow> bool
     \<Rightarrow> int option \<Rightarrow> bool \<Rightarrow> event list \<times> (exn + dataframe)" where
  "process_dataframe e df date_cols rename_map fillna_value dropna_any dropna_thresh strip_strings =
     (let (evs1, df1) = normalize_columns df;
          (evs2, df2) = apply_rename_map df1 rename_map;
          (evs3, r3) = trim_strings e df2 strip_strings
      in case r3 of
           Inl x \<Rightarrow> (evs1 @ evs2 @ evs3, Inl x)
         | Inr df3 \<Rightarrow>
             (let (evs4, df4) = parse_dates_step e df3 date_cols;
                  (evs5, df5) = drop_missing df4 dropna_any dropna_thresh;
                  (evs6, df6) = fill_missing df5 fillna_value
              in (evs1 @ evs2 @ evs3 @ evs4 @ evs5 @ evs6, Inr df6)))"

definition export_to_excel :: "env \<Rightarrow> dataframe \<Rightarrow> string \<Rightarrow> event list \<times> (exn + unit)" where
  "export_to_excel e df output_path =
     (case to_excel_fault e df output_path of
        None \<Rightarrow>
          ([Log INFO ''Exporting to Excel: %s'' [AStr output_path], ToExcel output_path,
            Log INFO ''Export successful.'' []], Inr ())
      | Some x \<Rightarrow>
          ([Log INFO ''Exporting to Excel: %s'' [AStr output_path], ToExcel output_path,
            Log ERROR ''Failed to export Excel file: %s'' [AExn x]], Inl x))"

section \<open>The command line\<close>

text \<open>
  The parsed command line (\<open>parse_args\<close>): \<open>argparse\<close> supplies at least one input path
  and the output path. A command line that \<open>argparse\<close> refuses ends the process inside
  \<open>parse_args\<close>, before any other line of \<open>main\<close> runs; \<open>main\<close> below is the program from
  the point where \<open>parse_args\<close> has returned. \<open>--verbose\<close> lowers the logger's
  threshold, which changes none of the records below.
\<close>

record args =
  arg_input :: "string list"
  arg_output :: string
  arg_date_cols :: "string option"
  arg_rename :: "string option"
  arg_fillna :: "string option"
  arg_dropna_any :: bool
  arg_dropna_thresh :: "int option"
  arg_verbose :: bool

text \<open>How the process ends: \<open>main\<close> returns, or \<open>sys.exit(n)\<close>.\<close>

datatype status = Returned | Exit nat

definition path_name :: "string \<Rightarrow> string" where
  \<comment> \<open>\<open>Path(p).name\<close>: the last component that is neither empty nor \<open>.\<close>\<close>
  "path_name p =
     (let parts = filter (\<lambda>x. x \<noteq> [] \<and> x \<noteq> ''.'') (str_split (CHR ''/'') p)
      in if parts = [] then [] else last parts)"

definition path_suffix :: "string \<Rightarrow> string" where
  \<comment> \<open>\<open>Path(p).suffix\<close>: from the last dot of the name, unless the name starts or ends there\<close>
  "path_suffix p =
     (let name = path_name p;
          tail = takeWhile (\<lambda>c. c \<noteq> CHR ''.'') (rev name)
      in if CHR ''.'' \<in> set name \<and> tail \<noteq> [] \<and> length tail + 1 < length name
         then CHR ''.'' # rev tail else [])"

definition explicit_date_cols :: "args \<Rightarrow> string list" where
  \<comment> \<open>\<open>date_cols_flag\<close> as \<open>main\<close> parses it from \<open>--date-cols\<close>\<close>
  "explicit_date_cols a =
     (case arg_date_cols a of
        None \<Rightarrow> []
      | Some s \<Rightarrow>
          if s = [] then []
          else map str_strip (filter (\<lambda>c. str_strip c \<noteq> []) (str_split (CHR '','') s)))"

definition resolve_date_cols :: "string list \<Rightarrow> dataframe \<Rightarrow> event list \<times> string list" where
  \<comment> \<open>\<open>main\<close>: "If no date_cols provided, auto detect by name"\<close>
  "resolve_date_cols date_cols_flag df =
     (if date_cols_flag = [] then
        (let auto = auto_detect_date_cols df
         in if auto \<noteq> [] then
              ([Log INFO ''Auto-detected date columns: %s'' [AStr (str_join '', '' auto)]], auto)
            else ([Log INFO ''No date columns provided or auto-detected.'' []], date_cols_flag))
      else ([], date_cols_flag))"

definition main :: "env \<Rightarrow> args \<Rightarrow> event list \<times> status" where
  "main e a =
     (case find (\<lambda>f. \<not> path_exists e f) (arg_input a) of
        Some f \<Rightarrow> ([Log ERROR ''Input file does not exist: %s'' [AStr f]], Exit 2)
      | None \<Rightarrow>
          if str_lower (path_suffix (arg_output a)) \<noteq> ''.xlsx'' then
            ([Log ERROR ''Output file must have .xlsx extension.'' []], Exit 2)
          else
            (let (evs_r, rename_map) = parse_rename_arg (arg_rename a);
                 date_cols_flag = explicit_date_cols a;
                 (evs_l, loaded) = load_and_concat e (arg_input a)
             in case loaded of
                  Inl x \<Rightarrow>
                    (evs_r @ evs_l @ [Log ERROR ''Could not load input CSV(s): %s'' [AExn x]],
                     Exit 3)
                | Inr df \<Rightarrow>
                    (let (evs_d, date_cols_flag) = resolve_date_cols date_cols_flag df;
                         rename_map_normalized =
                           dict_comprehension
                             (map (\<lambda>(k, v). (normalize_col_name k, v)) rename_map);
                         (evs_p, processed) =
                           process_dataframe e df (map normalize_col_name date_cols_flag)
                             rename_map_normalized (arg_fillna a) (arg_dropna_any a)
                             (arg_dropna_thresh a) True
                     in case processed of
                          Inl x \<Rightarrow>
                            (evs_r @ evs_l @ evs_d @ evs_p
                               @ [Log ERROR ''Processing failed: %s'' [AExn x]], Exit 4)
                        | Inr result \<Rightarrow>
                            (let (evs_e, exported) = export_to_excel e result (arg_output a)
                             in case exported of
                                  Inl x \<Rightarrow>
                                    (evs_r @ evs_l @ evs_d @ evs_p @ evs_e
                                       @ [Log ERROR ''Export failed: %s'' [AExn x]], Exit 5)
                                | Inr u \<Rightarrow>
                                    (evs_r @ evs_l @ evs_d @ evs_p @ evs_e
                                       @ [Log INFO ''All done. Output: %s'' [AStr (arg_output a)]],
                                     Returned)))))"

section \<open>Properties of names, tables and runs\<close>

text \<open>
  The predicates and observations the claims are stated with.
\<close>

definition trimmed :: "string \<Rightarrow> bool" where
  \<comment> \<open>no leading and no trailing whitespace\<close>
  "trimmed s = (s = [] \<or> (\<not> is_space (hd s) \<and> \<not> is_space (last s)))"

definition is_separator :: "char \<Rightarrow> bool" where
  \<comment> \<open>the characters the normalizer replaces by an underscore\<close>
  "is_separator c = (c \<in> {CHR '' '', CHR ''-'', CHR ''/'', CHR 0x5C, CHR ''.''})"

definition canonical :: "string \<Rightarrow> bool" where
  \<comment> \<open>the shape of a normalized name\<close>
  "canonical s = (trimmed s \<and> (\<forall>c\<in>set s. \<not> is_upper c \<and> \<not> is_separator c)
     \<and> \<not> str_contains ''__'' s)"

definition all_lower :: "string \<Rightarrow> bool" where
  \<comment> \<open>entirely lower-case: no upper-case character\<close>
  "all_lower s = (\<not> list_ex is_upper s)"

definition no_whitespace :: "string \<Rightarrow> bool" where
  \<comment> \<open>no whitespace character anywhere\<close>
  "no_whitespace s = (\<not> list_ex is_space s)"

definition other_whitespace :: "string \<Rightarrow> string" where
  \<comment> \<open>the whitespace characters of a string other than the space character, in order\<close>
  "other_whitespace s = filter (\<lambda>c. is_space c \<and> c \<noteq> CHR '' '') s"

definition no_underscore_run :: "string \<Rightarrow> bool" where
  \<comment> \<open>no run of two or more consecutive underscores\<close>
  "no_underscore_run s = (\<not> str_contains ''__'' s)"

definition plain_word :: "string \<Rightarrow> bool" where
  \<comment> \<open>a non-empty word without underscore, separator or whitespace\<close>
  "plain_word w = (w \<noteq> [] \<and> list_all (\<lambda>c. c \<noteq> CHR ''_'' \<and> \<not> is_separator c \<and> \<not> is_space c) w)"

definition date_words :: "string list" where
  \<comment> \<open>the substrings \<open>auto_detect_date_cols\<close> looks for\<close>
  "date_words = [''date'', ''time'', ''created'', ''updated'']"

fun reads_of :: "event list \<Rightarrow> string list" where
  \<comment> \<open>the files a run has called \<open>pd.read_csv\<close> on, in order\<close>
  "reads_of [] = []"
| "reads_of (ReadCsv p # evs) = p # reads_of evs"
| "reads_of (ev # evs) = reads_of evs"

fun writes_of :: "event list \<Rightarrow> string list" where
  \<comment> \<open>the files a run has called \<open>to_excel\<close> on\<close>
  "writes_of [] = []"
| "writes_of (ToExcel p # evs) = p # writes_of evs"
| "writes_of (ev # evs) = writes_of evs"

definition readable :: "env \<Rightarrow> string \<Rightarrow> bool" where
  \<comment> \<open>\<open>pd.read_csv\<close> returns a table for the file\<close>
  "readable e f = (\<not> isl (pd_read_csv e f))"











definition coerced_column :: "env \<Rightarrow> column \<Rightarrow> column" where
  \<comment> \<open>a date column after \<open>try_parse_dates\<close>: coerced cell by cell, or left as it is
      when the library call raises\<close>
  "coerced_column e col =
     (case to_datetime_fault e (col_cells col) of
        None \<Rightarrow> col\<lparr>col_dtype := Datetime64,
                    col_cells := map (coerce_cell e (col_cells col)) (col_cells col)\<rparr>
      | Some x \<Rightarrow> col)"

definition parse_record :: "env \<Rightarrow> string \<Rightarrow> column \<Rightarrow> event" where
  \<comment> \<open>the record \<open>try_parse_dates\<close> logs for a designated column that is in the table\<close>
  "parse_record e c col =
     (case pd_to_datetime e [col] of
        Inr parsed \<Rightarrow> Log INFO ''Parsed dates in column: %s'' [AStr c]
      | Inl x \<Rightarrow> Log WARNING ''Failed to parse dates in column %s: %s'' [AStr c, AExn x])"

definition null_free :: "dataframe \<Rightarrow> bool" where
  \<comment> \<open>no null/missing cell in any column\<close>
  "null_free df = list_all (\<lambda>col. \<not> list_ex (\<lambda>c. c = Null) (col_cells col)) df"

section \<open>Sample data\<close>

text \<open>
  A small environment on which the program is evaluated: two readable files with the
  columns \<open>"Name "\<close> and \<open>"Sale-Date"\<close>, one with a column of booleans, one that cannot
  be read, and a destination that cannot be written.
\<close>

definition sample_names :: dataframe where
  "sample_names =
     [\<lparr>col_name = ''Name '', col_dtype = Object, col_cells = [Str '' Ann '']\<rparr>,
      \<lparr>col_name = ''Sale-Date'', col_dtype = Object, col_cells = [Str ''2024-01-01'']\<rparr>]"

definition sample_flags :: dataframe where
  "sample_flags =
     [\<lparr>col_name = ''id'', col_dtype = Int64, col_cells = [Num 1, Num 2]\<rparr>,
      \<lparr>col_name = ''active'', col_dtype = Object, col_cells = [Flag True, Null]\<rparr>]"



definition sample_sales :: dataframe where
  "sample_sales =
     [\<lparr>col_name = ''Name '', col_dtype = Object, col_cells = [Str '' Ann '', Null]\<rparr>,
      \<lparr>col_name = ''created_at'', col_dtype = Object,
         col_cells = [Str ''2024-01-01'', Str ''not-a-date'']\<rparr>,
      \<lparr>col_name = ''Qty'', col_dtype = Float64, col_cells = [Null, Num 3]\<rparr>]"

definition sample_env :: env where
  "sample_env =
     \<lparr>path_exists = (\<lambda>p. p \<in> set [''data1.csv'', ''data2.csv'', ''flags.csv'', ''broken.csv'']),
      pd_read_csv = (\<lambda>p. if p = ''data1.csv'' \<or> p = ''data2.csv'' then Inr sample_names
                         else if p = ''flags.csv'' then Inr sample_flags
                         else Inl (LibraryError ''Error tokenizing data'')),
      pd_concat = (\<lambda>dfs. Inr (foldl (map2 (\<lambda>x y. x\<lparr>col_cells := col_cells x @ col_cells y\<rparr>))
                                 (hd dfs) (tl dfs))),
      str_accessor_fault =
        (\<lambda>cs. if list_ex (\<lambda>c. case c of Str s \<Rightarrow> True | _ \<Rightarrow> False) cs then None
              else Some (LibraryError ''Can only use .str accessor with string values!'')),
      to_datetime_fault = (\<lambda>cs. None),
      parse_datetime = (\<lambda>cs c. if c = Str ''2024-01-01'' then Some 1704067200 else None),
      to_excel_fault = (\<lambda>df p. if p = ''locked/out.xlsx''
                                 then Some (LibraryError ''Permission denied'') else None)\<rparr>"

definition sample_env_raising :: env where
  \<comment> \<open>an installation whose \<open>pd.to_datetime\<close> does not take the keyword
      \<open>infer_datetime_format\<close>: every call that passes it raises\<close>
  "sample_env_raising =
     sample_env\<lparr>to_datetime_fault :=
       (\<lambda>cs. Some (LibraryError
          (''to_datetime() got an unexpected keyword argument '' @ [CHR 0x27]
             @ ''infer_datetime_format'' @ [CHR 0x27])))\<rparr>"

definition sample_args :: args where
  "sample_args =
     \<lparr>arg_input = [''data1.csv'', ''data2.csv''], arg_output = ''out.xlsx'',
      arg_date_cols = None, arg_rename = None, arg_fillna = Some ''0'',
      arg_dropna_any = False, arg_dropna_thresh = None, arg_verbose = False\<rparr>"

section \<open>Facts about the string methods\<close>

lemma char_lower_not_upper: "\<not> is_upper (char_lower c)"
  by (auto simp: char_lower_def is_upper_def Let_def)

lemma char_lower_space: "is_space (char_lower c) = is_space c"
  by (auto simp: char_lower_def is_upper_def is_space_def Let_def)

lemma char_lower_eq_underscore: "(char_lower c = CHR ''_'') = (c = CHR ''_'')"
  by (auto simp: char_lower_def is_upper_def Let_def char_of_eq_iff take_bit_eq_mod)

lemma char_lower_idem: "\<not> is_upper c \<Longrightarrow> char_lower c = c"
  by (simp add: char_lower_def)

lemma str_replace_single:
  "str_replace [a] [b] s = map (\<lambda>c. if c = a then b else c) s"
  by (induction s) auto

lemma squeeze_simps:
  "str_replace ''__'' ''_'' [] = []"
  "str_replace ''__'' ''_'' [c] = [c]"
  "str_replace ''__'' ''_'' (c # d # cs) =
     (if c = CHR ''_'' \<and> d = CHR ''_'' then CHR ''_'' # str_replace ''__'' ''_'' cs
      else c # str_replace ''__'' ''_'' (d # cs))"
  by auto

lemma contains_dd_simps:
  "str_contains ''__'' [] = False"
  "str_contains ''__'' [c] = False"
  "str_contains ''__'' (c # d # cs) =
     ((c = CHR ''_'' \<and> d = CHR ''_'') \<or> str_contains ''__'' (d # cs))"
  by auto

lemma squeeze_set: "set (str_replace ''__'' ''_'' s) \<subseteq> set s"
  by (induction s rule: induct_list012)
     (auto simp: squeeze_simps simp del: str_replace.simps split: if_splits)

lemma squeeze_ends:
  "s \<noteq> [] \<Longrightarrow> str_replace ''__'' ''_'' s \<noteq> []
     \<and> hd (str_replace ''__'' ''_'' s) = hd s \<and> last (str_replace ''__'' ''_'' s) = last s"
proof (induction s rule: induct_list012)
  case 1
  then show ?case by simp
next
  case (2 x)
  then show ?case by simp
next
  case (3 x y zs)
  show ?case
  proof (cases "x = CHR ''_'' \<and> y = CHR ''_''")
    case True
    then show ?thesis using 3(1)
      by (cases zs) (auto simp: squeeze_simps simp del: str_replace.simps)
  next
    case False
    then show ?thesis using 3(2)
      by (auto simp: squeeze_simps simp del: str_replace.simps)
  qed
qed

lemma collapse_no_dd: "\<not> str_contains ''__'' (collapse_underscores s)"
  by (induction s rule: collapse_underscores.induct)
     (subst collapse_underscores.simps, simp)

lemma collapse_fixed: "\<not> str_contains ''__'' s \<Longrightarrow> collapse_underscores s = s"
  by (subst collapse_underscores.simps) simp

lemma collapse_set: "set (collapse_underscores s) \<subseteq> set s"
proof (induction s rule: collapse_underscores.induct)
  case (1 name)
  show ?case
  proof (cases "str_contains ''__'' name")
    case True
    then have "set (collapse_underscores name)
        \<subseteq> set (str_replace ''__'' ''_'' name)"
      using 1 by (subst collapse_underscores.simps) simp
    then show ?thesis using squeeze_set [of name] by blast
  next
    case False
    then show ?thesis by (simp add: collapse_fixed)
  qed
qed

lemma collapse_trimmed: "trimmed s \<Longrightarrow> trimmed (collapse_underscores s)"
proof (induction s rule: collapse_underscores.induct)
  case (1 name)
  show ?case
  proof (cases "str_contains ''__'' name")
    case True
    then have ne: "name \<noteq> []" by auto
    have "trimmed (str_replace ''__'' ''_'' name)"
      using squeeze_ends [OF ne] 1(2) ne by (simp add: trimmed_def)
    then have "trimmed (collapse_underscores (str_replace ''__'' ''_'' name))"
      using 1(1) True by simp
    then show ?thesis using True by (subst collapse_underscores.simps) simp
  next
    case False
    then show ?thesis using 1(2) by (simp add: collapse_fixed)
  qed
qed

lemma strip_trimmed: "trimmed (str_strip s)"
proof -
  define r where "r = str_rstrip s"
  have r: "r = [] \<or> \<not> is_space (last r)"
  proof (cases "dropWhile is_space (rev s) = []")
    case True
    then show ?thesis by (simp add: r_def str_rstrip_def)
  next
    case False
    then have "\<not> is_space (hd (dropWhile is_space (rev s)))"
      by (rule hd_dropWhile)
    then show ?thesis using False by (simp add: r_def str_rstrip_def last_rev)
  qed
  show ?thesis
  proof (cases "dropWhile is_space r = []")
    case True
    then show ?thesis by (simp add: trimmed_def str_strip_def str_lstrip_def r_def)
  next
    case False
    then have h: "\<not> is_space (hd (dropWhile is_space r))"
      by (rule hd_dropWhile)
    from False have "r \<noteq> []" by auto
    obtain ys where ys: "r = takeWhile is_space r @ dropWhile is_space r" by simp
    have "last (dropWhile is_space r) = last r"
      using False by (metis last_appendR takeWhile_dropWhile_id)
    then show ?thesis using h r \<open>r \<noteq> []\<close> False
      by (simp add: trimmed_def str_strip_def str_lstrip_def r_def)
  qed
qed

lemma strip_fixed: "trimmed s \<Longrightarrow> str_strip s = s"
proof (cases "s = []")
  case True
  then show ?thesis by (simp add: str_strip_def str_lstrip_def str_rstrip_def)
next
  case False
  assume "trimmed s"
  with False have h: "\<not> is_space (hd s)" and l: "\<not> is_space (last s)"
    by (simp_all add: trimmed_def)
  from False l have "dropWhile is_space (rev s) = rev s"
    by (cases "rev s") (auto simp: last_rev hd_rev)
  then have "str_rstrip s = s" by (simp add: str_rstrip_def)
  moreover from False h have "dropWhile is_space s = s" by (cases s) auto
  ultimately show ?thesis by (simp add: str_strip_def str_lstrip_def)
qed

lemma trimmed_map:
  "trimmed s \<Longrightarrow> (\<And>c. is_space (f c) \<Longrightarrow> is_space c) \<Longrightarrow> trimmed (map f s)"
  by (auto simp: trimmed_def hd_map last_map)

lemma no_dd_map:
  "\<not> str_contains ''__'' s \<Longrightarrow> (\<And>c. f c = CHR ''_'' \<Longrightarrow> c = CHR ''_'')
    \<Longrightarrow> \<not> str_contains ''__'' (map f s)"
  by (induction s rule: induct_list012)
     (auto simp: contains_dd_simps simp del: str_contains.simps)

lemma separator_not_upper: "is_separator c \<Longrightarrow> \<not> is_upper c"
  by (auto simp: is_separator_def is_upper_def)

lemma replace_separators:
  "str_replace ''.'' ''_'' (str_replace [CHR 0x5C] ''_'' (str_replace ''/'' ''_''
     (str_replace ''-'' ''_'' (str_replace '' '' ''_'' s))))
   = map (\<lambda>c. if is_separator c then CHR ''_'' else c) s"
  by (simp add: str_replace_single is_separator_def)

lemma normalize_col_name_alt:
  "normalize_col_name s = str_lower (collapse_underscores
     (map (\<lambda>c. if is_separator c then CHR ''_'' else c) (str_strip s)))"
  unfolding normalize_col_name_def Let_def replace_separators ..

lemma char_lower_separator: "is_separator (char_lower c) = is_separator c"
proof (cases "is_upper c")
  case True
  then have "\<not> is_separator c" using separator_not_upper by blast
  moreover have "\<not> is_separator (char_lower c)"
    using True
    by (auto simp: char_lower_def is_upper_def is_separator_def Let_def
        char_of_eq_iff take_bit_eq_mod)
  ultimately show ?thesis by simp
next
  case False
  then show ?thesis by (simp add: char_lower_def)
qed

lemma underscore_not_separator: "\<not> is_separator (CHR ''_'')"
  by (simp add: is_separator_def)

lemma underscore_not_space: "\<not> is_space (CHR ''_'')"
  by (simp add: is_space_def)

lemma normalize_canonical: "canonical (normalize_col_name s)"
proof -
  define t where "t = map (\<lambda>c. if is_separator c then CHR ''_'' else c) (str_strip s)"
  define u where "u = collapse_underscores t"
  have r: "normalize_col_name s = str_lower u"
    by (simp add: normalize_col_name_alt t_def u_def)
  have "trimmed t"
    unfolding t_def
    by (rule trimmed_map [OF strip_trimmed]) (simp add: underscore_not_space split: if_splits)
  then have "trimmed u" unfolding u_def by (rule collapse_trimmed)
  then have 1: "trimmed (str_lower u)"
    unfolding str_lower_def by (rule trimmed_map) (simp add: char_lower_space)
  have "\<forall>c\<in>set t. \<not> is_separator c"
    by (auto simp: t_def underscore_not_separator)
  then have "\<forall>c\<in>set u. \<not> is_separator c"
    using collapse_set [of t] by (auto simp: u_def)
  then have 2: "\<forall>c\<in>set (str_lower u). \<not> is_upper c \<and> \<not> is_separator c"
    by (auto simp: str_lower_def char_lower_not_upper char_lower_separator)
  have "\<not> str_contains ''__'' u" unfolding u_def by (rule collapse_no_dd)
  then have 3: "\<not> str_contains ''__'' (str_lower u)"
    unfolding str_lower_def by (rule no_dd_map) (simp add: char_lower_eq_underscore)
  from 1 2 3 show ?thesis by (simp add: canonical_def r)
qed

lemma normalize_fixed: "canonical s \<Longrightarrow> normalize_col_name s = s"
proof -
  assume c: "canonical s"
  then have "str_strip s = s" by (simp add: canonical_def strip_fixed)
  moreover have "map (\<lambda>c. if is_separator c then CHR ''_'' else c) s = s"
    using c by (simp add: canonical_def map_idI)
  moreover have "collapse_underscores s = s"
    using c by (simp add: canonical_def collapse_fixed)
  moreover have "str_lower s = s"
    using c by (simp add: canonical_def str_lower_def map_idI char_lower_idem)
  ultimately show ?thesis by (simp add: normalize_col_name_alt)
qed

lemma other_whitespace_map:
  "(\<And>c. is_space (f c) = is_space c) \<Longrightarrow> (\<And>c. (f c = CHR '' '') = (c = CHR '' ''))
    \<Longrightarrow> (\<And>c. is_space c \<Longrightarrow> c \<noteq> CHR '' '' \<Longrightarrow> f c = c)
    \<Longrightarrow> other_whitespace (map f s) = other_whitespace s"
  by (induction s) (auto simp: other_whitespace_def)

lemma squeeze_other_whitespace:
  "other_whitespace (str_replace ''__'' ''_'' s) = other_whitespace s"
  by (induction s rule: induct_list012)
     (auto simp: squeeze_simps other_whitespace_def underscore_not_space
        simp del: str_replace.simps)

lemma collapse_other_whitespace:
  "other_whitespace (collapse_underscores s) = other_whitespace s"
proof (induction s rule: collapse_underscores.induct)
  case (1 name)
  show ?case
  proof (cases "str_contains ''__'' name")
    case True
    then have "other_whitespace (collapse_underscores name)
        = other_whitespace (str_replace ''__'' ''_'' name)"
      using 1 by (subst collapse_underscores.simps) simp
    then show ?thesis by (simp add: squeeze_other_whitespace)
  next
    case False
    then show ?thesis by (simp add: collapse_fixed)
  qed
qed

lemma space_not_upper: "is_space c \<Longrightarrow> \<not> is_upper c"
  by (auto simp: is_space_def is_upper_def Let_def)

lemma char_lower_eq_space: "(char_lower c = CHR '' '') = (c = CHR '' '')"
  by (auto simp: char_lower_def is_upper_def Let_def char_of_eq_iff take_bit_eq_mod)

lemma separators_other_whitespace:
  "other_whitespace (map (\<lambda>c. if is_separator c then CHR ''_'' else c) s)
     = other_whitespace s"
  by (induction s) (auto simp: other_whitespace_def underscore_not_space is_separator_def
        is_space_def)

lemma normalize_other_whitespace:
  "other_whitespace (normalize_col_name s) = other_whitespace (str_strip s)"
proof -
  let ?t = "map (\<lambda>c. if is_separator c then CHR ''_'' else c) (str_strip s)"
  have "other_whitespace (str_lower (collapse_underscores ?t))
      = other_whitespace (collapse_underscores ?t)"
    unfolding str_lower_def
    by (rule other_whitespace_map)
       (simp_all add: char_lower_space char_lower_eq_space char_lower_idem space_not_upper)
  also have "\<dots> = other_whitespace ?t" by (rule collapse_other_whitespace)
  also have "\<dots> = other_whitespace (str_strip s)" by (rule separators_other_whitespace)
  finally show ?thesis by (simp add: normalize_col_name_alt)
qed

section \<open>Claims about the column-name normalizer\<close>

text \<open>
  C1 (as stated): for every input string the normalizer returns a string that is entirely
  lower-case, contains no whitespace characters and no run of two or more underscores.
  This fails: only the space character is replaced, so a tab inside the name is kept.
\<close>

theorem C1_whitespace_counterexample:
  "\<not> no_whitespace (normalize_col_name [CHR ''a'', CHR 0x09, CHR ''b''])"
  by code_simp

text \<open>
  C1 (amended): \<open>normalize_col_name\<close> is a total function (its loop terminates, see the
  termination proof of \<open>collapse_underscores\<close>), and for every input string over the code
  points U+0000 .. U+00FF the result contains no upper-case character, no space character
  (U+0020) and none of the other separators, has no leading or trailing whitespace, and
  contains no run of two or more underscores. Whitespace other than the space character
  inside the name is kept: the result holds the tabs, line breaks and other such
  characters of the stripped input, all of them and in the same order.
\<close>

theorem C1_normalize_shape:
  "all_lower (normalize_col_name s)
   \<and> CHR '' '' \<notin> set (normalize_col_name s)
   \<and> \<not> list_ex is_separator (normalize_col_name s)
   \<and> trimmed (normalize_col_name s)
   \<and> no_underscore_run (normalize_col_name s)
   \<and> other_whitespace (normalize_col_name s) = other_whitespace (str_strip s)"
proof -
  have c: "canonical (normalize_col_name s)" by (rule normalize_canonical)
  then have "\<forall>c\<in>set (normalize_col_name s). \<not> is_separator c"
    by (simp add: canonical_def)
  moreover have "is_separator (CHR '' '')" by (simp add: is_separator_def)
  ultimately have "CHR '' '' \<notin> set (normalize_col_name s)" by blast
  with c show ?thesis
    by (simp add: canonical_def all_lower_def no_underscore_run_def list_ex_iff
          normalize_other_whitespace)
qed

theorem C1_normalize_shape_witness:
  "all_lower (''sale_date'' @ [CHR 0x09] @ ''x'')
   \<and> CHR '' '' \<notin> set (''sale_date'' @ [CHR 0x09] @ ''x'')
   \<and> \<not> list_ex is_separator (''sale_date'' @ [CHR 0x09] @ ''x'')
   \<and> trimmed (''sale_date'' @ [CHR 0x09] @ ''x'')
   \<and> no_underscore_run (''sale_date'' @ [CHR 0x09] @ ''x'')
   \<and> other_whitespace (''sale_date'' @ [CHR 0x09] @ ''x'') = [CHR 0x09]"
proof -
  have n: "normalize_col_name (''  Sale-Date'' @ [CHR 0x09] @ ''X '')
         = ''sale_date'' @ [CHR 0x09] @ ''x''"
    by code_simp
  have o: "other_whitespace (str_strip (''  Sale-Date'' @ [CHR 0x09] @ ''X '')) = [CHR 0x09]"
    by code_simp
  show ?thesis
    using C1_normalize_shape [of "''  Sale-Date'' @ [CHR 0x09] @ ''X ''"] unfolding n o .
qed

text \<open>
  C8: the normalizer is idempotent: normalizing an already normalized name returns it
  unchanged.
\<close>

theorem C8_normalize_idempotent:
  "normalize_col_name (normalize_col_name s) = normalize_col_name s"
  by (rule normalize_fixed [OF normalize_canonical])

section \<open>Claims about the rename parser\<close>








section \<open>Facts about runs\<close>

lemma reads_of_append: "reads_of (xs @ ys) = reads_of xs @ reads_of ys"
  by (induction xs rule: reads_of.induct) auto

lemma writes_of_append: "writes_of (xs @ ys) = writes_of xs @ writes_of ys"
  by (induction xs rule: writes_of.induct) auto

lemma read_files_first_failure:
  "\<exists>f\<in>set files. \<not> readable e f \<Longrightarrow>
     snd (read_files e files dfs)
       = Inl (projl (pd_read_csv e (hd (dropWhile (readable e) files))))
     \<and> reads_of (fst (read_files e files dfs))
       = takeWhile (readable e) files @ [hd (dropWhile (readable e) files)]
     \<and> writes_of (fst (read_files e files dfs)) = []"
proof (induction files arbitrary: dfs)
  case Nil
  then show ?case by simp
next
  case (Cons f fs)
  show ?case
  proof (cases "pd_read_csv e f")
    case (Inl x)
    then show ?thesis by (simp add: readable_def)
  next
    case (Inr df)
    then have "readable e f" by (simp add: readable_def)
    with Cons.prems have "\<exists>f\<in>set fs. \<not> readable e f" by auto
    from Cons.IH [OF this, of "dfs @ [df]"] Inr \<open>readable e f\<close>
    show ?thesis by (simp add: split_beta)
  qed
qed

lemma load_and_concat_first_failure:
  assumes "\<exists>f\<in>set files. \<not> readable e f"
  shows "snd (load_and_concat e files)
       = Inl (projl (pd_read_csv e (hd (dropWhile (readable e) files))))"
    and "reads_of (fst (load_and_concat e files))
       = takeWhile (readable e) files @ [hd (dropWhile (readable e) files)]"
    and "writes_of (fst (load_and_concat e files)) = []"
  using read_files_first_failure [OF assms, of "[]"]
  by (auto simp: load_and_concat_def split_beta split: sum.splits)


lemma rename_step_events:
  "reads_of (fst (rename_step st p)) = reads_of (fst st)
   \<and> writes_of (fst (rename_step st p)) = writes_of (fst st)"
  by (cases st) (simp add: rename_step_def split_beta reads_of_append writes_of_append)

lemma rename_fold_events:
  "reads_of (fst (foldl rename_step st ps)) = reads_of (fst st)
   \<and> writes_of (fst (foldl rename_step st ps)) = writes_of (fst st)"
  by (induction ps arbitrary: st) (simp_all add: rename_step_events)

lemma parse_rename_arg_events:
  "reads_of (fst (parse_rename_arg r)) = [] \<and> writes_of (fst (parse_rename_arg r)) = []"
  using rename_fold_events [of "([], [])"]
  by (simp add: parse_rename_arg_def split: option.splits)

lemma main_wrong_extension:
  "str_lower (path_suffix (arg_output a)) \<noteq> ''.xlsx'' \<Longrightarrow>
     snd (main e a) = Exit 2 \<and> reads_of (fst (main e a)) = [] \<and> writes_of (fst (main e a)) = []"
  by (simp add: main_def split: option.splits)

lemma main_load_failure:
  assumes "list_all (path_exists e) (arg_input a)"
    and "str_lower (path_suffix (arg_output a)) = ''.xlsx''"
    and "snd (load_and_concat e (arg_input a)) = Inl x"
  shows "snd (main e a) = Exit 3"
    and "reads_of (fst (main e a)) = reads_of (fst (load_and_concat e (arg_input a)))"
    and "writes_of (fst (main e a)) = writes_of (fst (load_and_concat e (arg_input a)))"
proof -
  from assms(1) have "find (\<lambda>f. \<not> path_exists e f) (arg_input a) = None"
    by (simp add: find_None_iff list_all_iff)
  with assms(2,3) show "snd (main e a) = Exit 3"
    and "reads_of (fst (main e a)) = reads_of (fst (load_and_concat e (arg_input a)))"
    and "writes_of (fst (main e a)) = writes_of (fst (load_and_concat e (arg_input a)))"
    by (simp_all add: main_def split_beta reads_of_append writes_of_append
        parse_rename_arg_events)
qed

section \<open>Claims about the command line\<close>










text \<open>
  C9: when the output path does not have the \<open>.xlsx\<close> extension (for example \<open>out.csv\<close>),
  the run is rejected with status 2 before any input file is read; nothing is written
  either.
\<close>

theorem C9_wrong_extension_rejected_before_reading:
  "str_lower (path_suffix (arg_output a)) \<noteq> ''.xlsx'' \<Longrightarrow>
     snd (main e a) = Exit 2 \<and> reads_of (fst (main e a)) = []
     \<and> writes_of (fst (main e a)) = []"
  by (rule main_wrong_extension)

theorem C9_wrong_extension_rejected_before_reading_witness:
  "str_lower (path_suffix (arg_output (sample_args\<lparr>arg_output := ''out.csv''\<rparr>))) \<noteq> ''.xlsx''
   \<and> snd (main sample_env (sample_args\<lparr>arg_output := ''out.csv''\<rparr>)) = Exit 2
   \<and> reads_of (fst (main sample_env (sample_args\<lparr>arg_output := ''out.csv''\<rparr>))) = []
   \<and> writes_of (fst (main sample_env (sample_args\<lparr>arg_output := ''out.csv''\<rparr>))) = []"
proof -
  have h: "str_lower (path_suffix (arg_output (sample_args\<lparr>arg_output := ''out.csv''\<rparr>)))
      \<noteq> ''.xlsx''"
    by code_simp
  show ?thesis
    using h C9_wrong_extension_rejected_before_reading [OF h, of sample_env] by simp
qed

text \<open>
  C10: the loader aborts the whole load at the first listed file that fails to read, also
  when other listed files are readable. For every input list with at least one unreadable
  file, \<open>load_and_concat\<close> raises that file's exception, it has read the files before
  it and none after it, no table is returned, and \<open>main\<close> exits with status 3 without
  writing anything.
\<close>

theorem C10_load_aborts_at_first_unreadable:
  assumes "\<exists>f\<in>set files. \<not> readable e f"
  shows "(\<exists>x. pd_read_csv e (hd (dropWhile (readable e) files)) = Inl x
            \<and> snd (load_and_concat e files) = Inl x)
       \<and> reads_of (fst (load_and_concat e files))
            = takeWhile (readable e) files @ [hd (dropWhile (readable e) files)]
       \<and> (arg_input a = files \<and> list_all (path_exists e) files
            \<and> str_lower (path_suffix (arg_output a)) = ''.xlsx''
          \<longrightarrow> snd (main e a) = Exit 3 \<and> writes_of (fst (main e a)) = [])"
proof -
  let ?bad = "hd (dropWhile (readable e) files)"
  from assms have "dropWhile (readable e) files \<noteq> []" by (simp add: dropWhile_eq_Nil_conv)
  then have "\<not> readable e ?bad" by (rule hd_dropWhile)
  then obtain x where x: "pd_read_csv e ?bad = Inl x"
    by (cases "pd_read_csv e ?bad") (auto simp: readable_def)
  have l: "snd (load_and_concat e files) = Inl x"
    using load_and_concat_first_failure(1) [OF assms] x by simp
  show ?thesis
    using x l load_and_concat_first_failure(2,3) [OF assms]
      main_load_failure [of e a x]
    by auto
qed

lemma sample_unreadable:
  "\<exists>f\<in>set [''data1.csv'', ''broken.csv'', ''data2.csv'']. \<not> readable sample_env f"
  by (simp add: readable_def sample_env_def)

lemma sample_first_unreadable:
  "takeWhile (readable sample_env) [''data1.csv'', ''broken.csv'', ''data2.csv'']
     = [''data1.csv'']
   \<and> hd (dropWhile (readable sample_env) [''data1.csv'', ''broken.csv'', ''data2.csv''])
     = ''broken.csv''"
  by (simp add: readable_def sample_env_def)

theorem C10_load_aborts_at_first_unreadable_witness:
  "(\<exists>f\<in>set [''data1.csv'', ''broken.csv'', ''data2.csv'']. \<not> readable sample_env f)
   \<and> isl (snd (load_and_concat sample_env [''data1.csv'', ''broken.csv'', ''data2.csv'']))
   \<and> reads_of (fst (load_and_concat sample_env [''data1.csv'', ''broken.csv'', ''data2.csv'']))
       = [''data1.csv'', ''broken.csv'']"
  using sample_unreadable
    C10_load_aborts_at_first_unreadable [OF sample_unreadable, of sample_args]
  unfolding sample_first_unreadable [THEN conjunct1] sample_first_unreadable [THEN conjunct2]
  by auto

section \<open>Claims about the pipeline stages\<close>

















lemma columns_setitem: "columns (setitem df c dt cs) = columns df"
  by (simp add: columns_def setitem_def comp_def if_distrib cong: if_cong)

lemma parse_date_col_columns: "columns (snd (parse_date_col e st c)) = columns (snd st)"
  by (cases st) (simp add: parse_date_col_def columns_setitem split: sum.splits)

lemma try_parse_dates_fold_columns:
  "columns (snd (foldl (parse_date_col e) st cols)) = columns (snd st)"
  by (induction cols arbitrary: st) (simp_all add: parse_date_col_columns)

lemma getitem_setitem_other:
  "c' \<noteq> c \<Longrightarrow> getitem (setitem df c dt cs) c' = getitem df c'"
  by (induction df) (auto simp: getitem_def setitem_def)

lemma getitem_setitem_same:
  "getitem (setitem df c dt cs) c
     = map (\<lambda>col. col\<lparr>col_dtype := dt, col_cells := cs\<rparr>) (getitem df c)"
  by (induction df) (auto simp: getitem_def setitem_def)

lemma parse_date_col_other:
  "c' \<noteq> c \<Longrightarrow> getitem (snd (parse_date_col e st c)) c' = getitem (snd st) c'"
  by (cases st) (simp add: parse_date_col_def getitem_setitem_other split: sum.splits)

lemma fold_parse_other:
  "c' \<notin> set cols \<Longrightarrow>
     getitem (snd (foldl (parse_date_col e) st cols)) c' = getitem (snd st) c'"
  by (induction cols arbitrary: st) (simp_all add: parse_date_col_other)

lemma getitem_in_columns: "getitem df c = [col] \<Longrightarrow> c \<in> set (columns df)"
proof -
  assume "getitem df c = [col]"
  then have "col \<in> set (filter (\<lambda>x. col_name x = c) df)" by (simp add: getitem_def)
  then show ?thesis by (auto simp: columns_def)
qed

lemma parse_date_col_same:
  assumes "getitem (snd st) c = [col]"
  shows "getitem (snd (parse_date_col e st c)) c = [coerced_column e col]"
proof -
  obtain evs df where st: "st = (evs, df)" by (cases st)
  from assms st have g: "getitem df c = [col]" by simp
  then have "c \<in> set (columns df)" by (rule getitem_in_columns)
  then show ?thesis
    using g
    by (auto simp: st parse_date_col_def pd_to_datetime_def getitem_setitem_same
        coerced_column_def split: option.splits)
qed

lemma coerce_cell_settled: "coerce_cell e cs' (coerce_cell e cs c) = coerce_cell e cs c"
  by (simp add: coerce_cell_def split: cell.splits option.splits)

lemma coerced_column_settled: "coerced_column e (coerced_column e col) = coerced_column e col"
proof (cases "to_datetime_fault e (col_cells col)")
  case None
  then show ?thesis
    by (cases "to_datetime_fault e (map (coerce_cell e (col_cells col)) (col_cells col))")
       (simp_all add: coerced_column_def coerce_cell_settled)
next
  case (Some x)
  then show ?thesis by (simp add: coerced_column_def)
qed

lemma fold_parse_settled:
  "getitem (snd st) c = [coerced_column e col] \<Longrightarrow>
     getitem (snd (foldl (parse_date_col e) st cols)) c = [coerced_column e col]"
proof (induction cols arbitrary: st)
  case Nil
  then show ?case by simp
next
  case (Cons c' cols)
  have "getitem (snd (parse_date_col e st c')) c = [coerced_column e col]"
  proof (cases "c' = c")
    case True
    then show ?thesis
      using parse_date_col_same [OF Cons.prems, of e] by (simp add: coerced_column_settled)
  next
    case False
    then show ?thesis using Cons.prems by (simp add: parse_date_col_other)
  qed
  then show ?case using Cons.IH by simp
qed

lemma fold_parse_column:
  "c \<in> set cols \<Longrightarrow> getitem (snd st) c = [col] \<Longrightarrow>
     getitem (snd (foldl (parse_date_col e) st cols)) c = [coerced_column e col]"
proof (induction cols arbitrary: st)
  case Nil
  then show ?case by simp
next
  case (Cons c' cols)
  show ?case
  proof (cases "c' = c")
    case True
    then have "getitem (snd (parse_date_col e st c')) c = [coerced_column e col]"
      using parse_date_col_same [OF Cons.prems(2), of e] by simp
    then show ?thesis using fold_parse_settled by simp
  next
    case False
    with Cons.prems have "c \<in> set cols"
      and "getitem (snd (parse_date_col e st c')) c = [col]"
      by (simp_all add: parse_date_col_other)
    then show ?thesis using Cons.IH by simp
  qed
qed

lemma try_parse_dates_column:
  assumes "c \<in> set cols" and "getitem df c = [col]"
  shows "getitem (snd (try_parse_dates e df cols)) c = [coerced_column e col]"
  unfolding try_parse_dates_def using fold_parse_column [OF assms(1), of "([], df)"] assms(2)
  by simp

lemma try_parse_dates_columns: "columns (snd (try_parse_dates e df cols)) = columns df"
  by (simp add: try_parse_dates_def try_parse_dates_fold_columns)

lemma setitem_lengths:
  assumes "\<forall>col\<in>set df. col_name col = c \<longrightarrow> length (col_cells col) = length cs"
  shows "map (\<lambda>col. length (col_cells col)) (setitem df c dt cs)
       = map (\<lambda>col. length (col_cells col)) df"
  using assms by (induction df) (auto simp: setitem_def)

lemma getitem_single:
  "getitem df c = [col] \<Longrightarrow> \<forall>x\<in>set df. col_name x = c \<longrightarrow> x = col"
proof
  fix x
  assume g: "getitem df c = [col]" and x: "x \<in> set df"
  show "col_name x = c \<longrightarrow> x = col"
  proof
    assume "col_name x = c"
    with x have "x \<in> set (getitem df c)" by (simp add: getitem_def)
    with g show "x = col" by simp
  qed
qed

lemma parse_date_col_lengths:
  "map (\<lambda>col. length (col_cells col)) (snd (parse_date_col e st c))
     = map (\<lambda>col. length (col_cells col)) (snd st)"
proof -
  obtain evs df where st: "st = (evs, df)" by (cases st)
  show ?thesis
  proof (cases "pd_to_datetime e (getitem df c)")
    case (Inl x)
    then show ?thesis by (simp add: st parse_date_col_def)
  next
    case (Inr parsed)
    then obtain col where g: "getitem df c = [col]"
      and p: "length parsed = length (col_cells col)"
      by (auto simp: pd_to_datetime_def split: list.splits option.splits)
    from getitem_single [OF g] p
    have "\<forall>x\<in>set df. col_name x = c \<longrightarrow> length (col_cells x) = length parsed" by auto
    then show ?thesis
      using Inr by (simp add: st parse_date_col_def setitem_lengths)
  qed
qed

lemma try_parse_dates_lengths:
  "map (\<lambda>col. length (col_cells col)) (snd (try_parse_dates e df cols))
     = map (\<lambda>col. length (col_cells col)) df"
proof -
  have "map (\<lambda>col. length (col_cells col)) (snd (foldl (parse_date_col e) st cols))
     = map (\<lambda>col. length (col_cells col)) (snd st)" for st
    by (induction cols arbitrary: st) (simp_all add: parse_date_col_lengths)
  then show ?thesis by (simp add: try_parse_dates_def)
qed

lemma parse_date_col_events:
  "set (fst st) \<subseteq> set (fst (parse_date_col e st c))"
  by (cases st) (auto simp: parse_date_col_def split: sum.splits)

lemma fold_parse_events:
  "set (fst st) \<subseteq> set (fst (foldl (parse_date_col e) st cols))"
proof (induction cols arbitrary: st)
  case Nil
  show ?case by simp
next
  case (Cons c cols)
  show ?case using parse_date_col_events [of st e c] Cons [of "parse_date_col e st c"] by auto
qed

lemma parse_date_col_record:
  assumes "getitem (snd st) c = [col]"
  shows "parse_record e c col \<in> set (fst (parse_date_col e st c))"
proof -
  obtain evs df where st: "st = (evs, df)" by (cases st)
  from assms have "c \<in> set (columns df)" by (simp add: st getitem_in_columns)
  with assms show ?thesis
    by (simp add: st parse_date_col_def parse_record_def split: sum.splits)
qed

lemma fold_parse_record:
  "c \<in> set cols \<Longrightarrow> getitem (snd st) c = [col] \<Longrightarrow>
     parse_record e c col \<in> set (fst (foldl (parse_date_col e) st cols))"
proof (induction cols arbitrary: st)
  case Nil
  then show ?case by simp
next
  case (Cons c' cols)
  show ?case
  proof (cases "c' = c")
    case True
    have "parse_record e c col \<in> set (fst (parse_date_col e st c))"
      by (rule parse_date_col_record [OF Cons.prems(2)])
    then show ?thesis
      using fold_parse_events [of "parse_date_col e st c" e cols] True by auto
  next
    case False
    with Cons.prems have "c \<in> set cols"
      and "getitem (snd (parse_date_col e st c')) c = [col]"
      by (simp_all add: parse_date_col_other)
    then show ?thesis using Cons.IH by simp
  qed
qed

lemma try_parse_dates_record:
  "c \<in> set cols \<Longrightarrow> getitem df c = [col] \<Longrightarrow>
     parse_record e c col \<in> set (fst (try_parse_dates e df cols))"
  unfolding try_parse_dates_def using fold_parse_record [of c cols "([], df)" col e] by simp

text \<open>
  C4 (as stated): every cell of a designated date column that fails to parse becomes a
  null/missing marker, and the column \<open>["2024-01-01", "not-a-date"]\<close> becomes the parsed
  date followed by null. This fails when the library call for the column raises: the
  handler of \<open>try_parse_dates\<close> logs a warning and leaves the whole column as it was, the
  cell that does not parse included.
\<close>

theorem C4_raising_call_counterexample:
  "getitem sample_sales ''created_at''
     = [\<lparr>col_name = ''created_at'', col_dtype = Object,
          col_cells = [Str ''2024-01-01'', Str ''not-a-date'']\<rparr>]
   \<and> parse_datetime sample_env_raising [Str ''2024-01-01'', Str ''not-a-date'']
         (Str ''not-a-date'') = None
   \<and> try_parse_dates sample_env_raising sample_sales [''created_at'']
       = ([Log WARNING ''Failed to parse dates in column %s: %s''
             [AStr ''created_at'',
              AExn (LibraryError (''to_datetime() got an unexpected keyword argument ''
                      @ [CHR 0x27] @ ''infer_datetime_format'' @ [CHR 0x27]))]],
          sample_sales)"
  by code_simp

text \<open>
  C4 (amended): date coercion never raises: it always returns the table, with the same
  columns and row count. A designated column that is in the table (under one label) is
  handed to the library's parser as a whole. When that call completes, the step records
  \<open>Parsed dates in column\<close> and the column holds, cell by cell, what the parser gives for
  the cell in its column: a missing cell stays missing, a cell that parses becomes the
  date/time and every cell that fails to parse becomes null. When that call raises, the
  step records the warning \<open>Failed to parse dates in column\<close> and leaves the column as it
  is. For the column \<open>["2024-01-01", "not-a-date"]\<close>, where the call completes and the
  first value parses, the result is the parsed date followed by null.
\<close>

theorem C4_date_coercion_per_cell:
  "columns (snd (try_parse_dates e df cols)) = columns df
   \<and> map (\<lambda>col. length (col_cells col)) (snd (try_parse_dates e df cols))
       = map (\<lambda>col. length (col_cells col)) df
   \<and> (c \<in> set cols \<and> getitem df c = [col] \<longrightarrow>
        (\<forall>parsed. pd_to_datetime e [col] = Inr parsed \<longrightarrow>
           getitem (snd (try_parse_dates e df cols)) c
             = [col\<lparr>col_dtype := Datetime64, col_cells := parsed\<rparr>]
           \<and> Log INFO ''Parsed dates in column: %s'' [AStr c]
                 \<in> set (fst (try_parse_dates e df cols))
           \<and> length parsed = length (col_cells col)
           \<and> (\<forall>j<length (col_cells col).
                 parsed ! j = coerce_cell e (col_cells col) (col_cells col ! j)
                 \<and> (col_cells col ! j = Null \<longrightarrow> parsed ! j = Null)
                 \<and> (\<forall>s. col_cells col ! j = Str s \<longrightarrow>
                       parsed ! j = (case parse_datetime e (col_cells col) (Str s) of
                                       Some t \<Rightarrow> Timestamp t | None \<Rightarrow> Null))))
        \<and> (\<forall>x. pd_to_datetime e [col] = Inl x \<longrightarrow>
              getitem (snd (try_parse_dates e df cols)) c = [col]
              \<and> Log WARNING ''Failed to parse dates in column %s: %s'' [AStr c, AExn x]
                    \<in> set (fst (try_parse_dates e df cols))))"
proof (intro conjI impI allI)
  show "columns (snd (try_parse_dates e df cols)) = columns df"
    by (rule try_parse_dates_columns)
  show "map (\<lambda>col. length (col_cells col)) (snd (try_parse_dates e df cols))
       = map (\<lambda>col. length (col_cells col)) df"
    by (rule try_parse_dates_lengths)
next
  fix parsed
  assume h: "c \<in> set cols \<and> getitem df c = [col]"
    and p: "pd_to_datetime e [col] = Inr parsed"
  from p have f: "to_datetime_fault e (col_cells col) = None"
    and q: "parsed = map (coerce_cell e (col_cells col)) (col_cells col)"
    by (auto simp: pd_to_datetime_def split: option.splits)
  from h have "getitem (snd (try_parse_dates e df cols)) c = [coerced_column e col]"
    by (simp add: try_parse_dates_column)
  then show "getitem (snd (try_parse_dates e df cols)) c
             = [col\<lparr>col_dtype := Datetime64, col_cells := parsed\<rparr>]"
    by (simp add: f q coerced_column_def)
  from h have "parse_record e c col \<in> set (fst (try_parse_dates e df cols))"
    by (simp add: try_parse_dates_record)
  then show "Log INFO ''Parsed dates in column: %s'' [AStr c]
                 \<in> set (fst (try_parse_dates e df cols))"
    by (simp add: parse_record_def p)
  show "length parsed = length (col_cells col)" by (simp add: q)
  fix j
  assume j: "j < length (col_cells col)"
  then show "parsed ! j = coerce_cell e (col_cells col) (col_cells col ! j)"
    by (simp add: q)
  {
    assume "col_cells col ! j = Null"
    then show "parsed ! j = Null" using j by (simp add: q coerce_cell_def)
  }
  fix s
  assume "col_cells col ! j = Str s"
  then show "parsed ! j = (case parse_datetime e (col_cells col) (Str s) of
                                       Some t \<Rightarrow> Timestamp t | None \<Rightarrow> Null)"
    using j by (simp add: q coerce_cell_def)
next
  fix x
  assume h: "c \<in> set cols \<and> getitem df c = [col]"
    and p: "pd_to_datetime e [col] = Inl x"
  from p obtain y where f: "to_datetime_fault e (col_cells col) = Some y"
    by (auto simp: pd_to_datetime_def split: option.splits)
  from h have "getitem (snd (try_parse_dates e df cols)) c = [coerced_column e col]"
    by (simp add: try_parse_dates_column)
  then show "getitem (snd (try_parse_dates e df cols)) c = [col]"
    by (simp add: f coerced_column_def)
  from h have "parse_record e c col \<in> set (fst (try_parse_dates e df cols))"
    by (simp add: try_parse_dates_record)
  then show "Log WARNING ''Failed to parse dates in column %s: %s'' [AStr c, AExn x]
                    \<in> set (fst (try_parse_dates e df cols))"
    by (simp add: parse_record_def p)
qed

lemma sample_created_at:
  "getitem sample_sales ''created_at''
     = [\<lparr>col_name = ''created_at'', col_dtype = Object,
          col_cells = [Str ''2024-01-01'', Str ''not-a-date'']\<rparr>]"
  by (simp add: sample_sales_def getitem_def)

lemma sample_created_at_parsed:
  "pd_to_datetime sample_env
     [\<lparr>col_name = ''created_at'', col_dtype = Object,
        col_cells = [Str ''2024-01-01'', Str ''not-a-date'']\<rparr>]
     = Inr [Timestamp 1704067200, Null]"
  by (simp add: pd_to_datetime_def sample_env_def coerce_cell_def)

lemma sample_created_at_refused:
  "pd_to_datetime sample_env_raising
     [\<lparr>col_name = ''created_at'', col_dtype = Object,
        col_cells = [Str ''2024-01-01'', Str ''not-a-date'']\<rparr>]
     = Inl (LibraryError (''to_datetime() got an unexpected keyword argument ''
              @ [CHR 0x27] @ ''infer_datetime_format'' @ [CHR 0x27]))"
  by (simp add: pd_to_datetime_def sample_env_raising_def sample_env_def)

theorem C4_date_coercion_per_cell_witness:
  "''created_at'' \<in> set [''created_at'']
   \<and> getitem sample_sales ''created_at''
       = [\<lparr>col_name = ''created_at'', col_dtype = Object,
            col_cells = [Str ''2024-01-01'', Str ''not-a-date'']\<rparr>]
   \<and> getitem (snd (try_parse_dates sample_env sample_sales [''created_at''])) ''created_at''
       = [\<lparr>col_name = ''created_at'', col_dtype = Datetime64,
            col_cells = [Timestamp 1704067200, Null]\<rparr>]
   \<and> getitem (snd (try_parse_dates sample_env_raising sample_sales [''created_at'']))
         ''created_at''
       = [\<lparr>col_name = ''created_at'', col_dtype = Object,
            col_cells = [Str ''2024-01-01'', Str ''not-a-date'']\<rparr>]"
  using sample_created_at sample_created_at_parsed sample_created_at_refused
    C4_date_coercion_per_cell [of sample_env sample_sales "[''created_at'']" "''created_at''"
      "\<lparr>col_name = ''created_at'', col_dtype = Object,
         col_cells = [Str ''2024-01-01'', Str ''not-a-date'']\<rparr>"]
    C4_date_coercion_per_cell [of sample_env_raising sample_sales "[''created_at'']"
      "''created_at''"
      "\<lparr>col_name = ''created_at'', col_dtype = Object,
         col_cells = [Str ''2024-01-01'', Str ''not-a-date'']\<rparr>"]
  by simp

lemma fillna_null_free: "null_free (fillna df v)"
  by (auto simp: null_free_def fillna_def list_all_iff list_ex_iff)

lemma process_fill_last:
  "snd (process_dataframe e df dc rm (Some v) da dt ss)
     = map_sum id (\<lambda>d. fillna d v) (snd (process_dataframe e df dc rm None da dt ss))"
  by (simp add: process_dataframe_def fill_missing_def split_beta Let_def split: sum.splits)

lemma process_fill_events:
  "snd (process_dataframe e df dc rm None da dt ss) = Inr d \<Longrightarrow>
   fst (process_dataframe e df dc rm (Some v) da dt ss)
     = fst (process_dataframe e df dc rm None da dt ss)
       @ [Log INFO ''Filled remaining missing values with: %s'' [AStr v]]"
  by (simp add: process_dataframe_def fill_missing_def split_beta Let_def split: sum.splits)

lemma process_fill_drop:
  "snd (process_dataframe e df dc rm (Some v) da dt ss) = Inr out \<Longrightarrow>
     \<exists>d. out = fillna (snd (drop_missing d da dt)) v"
  by (auto simp: process_dataframe_def fill_missing_def split_beta Let_def split: sum.splits)

text \<open>
  C6: when a fill value is configured, the fill is the last sub-step of the missing-value
  resolver, after the drop sub-steps: the run with the fill value is the run without it
  followed by \<open>fillna\<close>, and the table it returns has no null cell in any column.
\<close>

theorem C6_fill_runs_last_and_leaves_no_null:
  "snd (process_dataframe e df dc rm (Some v) da dt ss)
     = map_sum id (\<lambda>d. fillna d v) (snd (process_dataframe e df dc rm None da dt ss))
   \<and> (\<forall>out. snd (process_dataframe e df dc rm (Some v) da dt ss) = Inr out \<longrightarrow>
         null_free out
         \<and> (\<exists>d. out = fillna (snd (drop_missing d da dt)) v)
         \<and> fst (process_dataframe e df dc rm (Some v) da dt ss)
             = fst (process_dataframe e df dc rm None da dt ss)
               @ [Log INFO ''Filled remaining missing values with: %s'' [AStr v]])"
proof (intro conjI allI impI)
  show "snd (process_dataframe e df dc rm (Some v) da dt ss)
     = map_sum id (\<lambda>d. fillna d v) (snd (process_dataframe e df dc rm None da dt ss))"
    by (rule process_fill_last)
next
  fix out
  assume a: "snd (process_dataframe e df dc rm (Some v) da dt ss) = Inr out"
  then obtain d where d: "snd (process_dataframe e df dc rm None da dt ss) = Inr d"
    and out: "out = fillna d v"
    unfolding process_fill_last
    by (cases "snd (process_dataframe e df dc rm None da dt ss)") auto
  show "null_free out" using out by (simp add: fillna_null_free)
  show "\<exists>d. out = fillna (snd (drop_missing d da dt)) v" using a by (rule process_fill_drop)
  show "fst (process_dataframe e df dc rm (Some v) da dt ss)
             = fst (process_dataframe e df dc rm None da dt ss)
               @ [Log INFO ''Filled remaining missing values with: %s'' [AStr v]]"
    using d by (rule process_fill_events)
qed

lemma sample_sales_processed:
  "snd (process_dataframe sample_env sample_sales [''created_at''] [] (Some ''0'') False None True)
     = Inr [\<lparr>col_name = ''name'', col_dtype = Object, col_cells = [Str ''Ann'', Str ''0'']\<rparr>,
            \<lparr>col_name = ''created_at'', col_dtype = Object,
               col_cells = [Timestamp 1704067200, Str ''0'']\<rparr>,
            \<lparr>col_name = ''qty'', col_dtype = Object, col_cells = [Str ''0'', Num 3]\<rparr>]"
  by code_simp

theorem C6_fill_runs_last_and_leaves_no_null_witness:
  "null_free
     [\<lparr>col_name = ''name'', col_dtype = Object, col_cells = [Str ''Ann'', Str ''0'']\<rparr>,
      \<lparr>col_name = ''created_at'', col_dtype = Object,
         col_cells = [Timestamp 1704067200, Str ''0'']\<rparr>,
      \<lparr>col_name = ''qty'', col_dtype = Object, col_cells = [Str ''0'', Num 3]\<rparr>]"
  using C6_fill_runs_last_and_leaves_no_null
    [of sample_env sample_sales "[''created_at'']" "[]" "''0''" False None True]
  unfolding sample_sales_processed by blast

section \<open>Claims about date-column detection\<close>

lemma str_contains_sublist: "str_contains w s = sublist w s"
  by (induction s) (simp_all add: sublist_Cons_right)

lemma sublist_dropWhile_iff:
  assumes "w \<noteq> []" and "\<forall>c\<in>set w. \<not> P c"
  shows "sublist w (dropWhile P s) = sublist w s"
proof (induction s)
  case Nil
  then show ?case by simp
next
  case (Cons x xs)
  show ?case
  proof (cases "P x")
    case True
    have "\<not> prefix w (x # xs)"
    proof
      assume "prefix w (x # xs)"
      with assms(1) have "hd w = x" by (cases w) auto
      with assms True show False by (cases w) auto
    qed
    with True Cons show ?thesis by (simp add: sublist_Cons_right)
  next
    case False
    then show ?thesis by simp
  qed
qed

lemma sublist_strip:
  assumes "w \<noteq> []" and "\<forall>c\<in>set w. \<not> is_space c"
  shows "sublist w (str_strip s) = sublist w s"
proof -
  have r: "rev w \<noteq> []" "\<forall>c\<in>set (rev w). \<not> is_space c" using assms by simp_all
  have "sublist w (str_strip s) = sublist w (str_rstrip s)"
    unfolding str_strip_def str_lstrip_def by (rule sublist_dropWhile_iff [OF assms])
  also have "\<dots> = sublist (rev w) (dropWhile is_space (rev s))"
    by (simp add: str_rstrip_def sublist_rev_right)
  also have "\<dots> = sublist (rev w) (rev s)" by (rule sublist_dropWhile_iff [OF r])
  also have "\<dots> = sublist w s" by simp
  finally show ?thesis .
qed

lemma sublist_map_fixed:
  assumes "\<And>c d. c \<in> set w \<Longrightarrow> f d = c \<Longrightarrow> d = c" and "\<And>c. c \<in> set w \<Longrightarrow> f c = c"
  shows "sublist w (map f s) = sublist w s"
proof
  assume "sublist w (map f s)"
  then obtain w' where w': "sublist w' s" "w = map f w'"
    using sublist_map_rightE by blast
  have "map f w' = w' " 
  proof (rule map_idI)
    fix d assume "d \<in> set w'"
    then have "f d \<in> set w" using w'(2) by auto
    then show "f d = d" using assms(1) [of "f d" d] by simp
  qed
  with w' show "sublist w s" by simp
next
  assume "sublist w s"
  then have "sublist (map f w) (map f s)" by (rule map_mono_sublist)
  moreover have "map f w = w" by (rule map_idI) (rule assms(2))
  ultimately show "sublist w (map f s)" by simp
qed

lemma prefix_squeeze:
  "CHR ''_'' \<notin> set w \<Longrightarrow> prefix w (str_replace ''__'' ''_'' s) = prefix w s"
proof (induction s arbitrary: w rule: induct_list012)
  case 1
  then show ?case by simp
next
  case (2 x)
  then show ?case by simp
next
  case (3 x y zs)
  show ?case
  proof (cases w)
    case Nil
    then show ?thesis by simp
  next
    case (Cons c cs)
    with 3(3) have c: "c \<noteq> CHR ''_''" and cs: "CHR ''_'' \<notin> set cs" by auto
    show ?thesis
    proof (cases "x = CHR ''_'' \<and> y = CHR ''_''")
      case True
      then show ?thesis using c Cons
        by (simp add: squeeze_simps del: str_replace.simps)
    next
      case False
      then show ?thesis using 3(2) [OF cs] Cons
        by (auto simp: squeeze_simps simp del: str_replace.simps)
    qed
  qed
qed

lemma sublist_squeeze:
  assumes "w \<noteq> []" and "CHR ''_'' \<notin> set w"
  shows "sublist w (str_replace ''__'' ''_'' s) = sublist w s"
proof (induction s rule: induct_list012)
  case 1
  then show ?case by simp
next
  case (2 x)
  then show ?case by simp
next
  case (3 x y zs)
  have np: "\<not> prefix w (CHR ''_'' # t)" for t
    using assms by (cases w) auto
  show ?case
  proof (cases "x = CHR ''_'' \<and> y = CHR ''_''")
    case True
    then show ?thesis using 3(1) np
      by (simp add: squeeze_simps sublist_Cons_right del: str_replace.simps)
  next
    case False
    have "prefix w (x # str_replace ''__'' ''_'' (y # zs)) = prefix w (x # y # zs)"
      using prefix_squeeze [OF assms(2), of "x # y # zs"] False
      by (simp add: squeeze_simps del: str_replace.simps)
    then show ?thesis using 3(2) False
      by (auto simp: squeeze_simps sublist_Cons_right simp del: str_replace.simps)
  qed
qed

lemma sublist_collapse:
  assumes "w \<noteq> []" and "CHR ''_'' \<notin> set w"
  shows "sublist w (collapse_underscores s) = sublist w s"
proof (induction s rule: collapse_underscores.induct)
  case (1 name)
  show ?case
  proof (cases "str_contains ''__'' name")
    case True
    then have "collapse_underscores name
        = collapse_underscores (str_replace ''__'' ''_'' name)"
      by (subst collapse_underscores.simps) simp
    then show ?thesis using 1 [OF True] sublist_squeeze [OF assms] by simp
  next
    case False
    then show ?thesis by (simp add: collapse_fixed)
  qed
qed

lemma plain_word_normalized:
  assumes "plain_word w"
  shows "sublist w (collapse_underscores
           (map (\<lambda>c. if is_separator c then CHR ''_'' else c) (str_strip s))) = sublist w s"
proof -
  from assms have ne: "w \<noteq> []" and u: "CHR ''_'' \<notin> set w"
    and sep: "\<forall>c\<in>set w. \<not> is_separator c" and sp: "\<forall>c\<in>set w. \<not> is_space c"
    by (auto simp: plain_word_def list_all_iff)
  have "sublist w (map (\<lambda>c. if is_separator c then CHR ''_'' else c) (str_strip s))
      = sublist w (str_strip s)"
    by (rule sublist_map_fixed) (use u sep in \<open>auto split: if_splits\<close>)
  then show ?thesis
    using sublist_collapse [OF ne u] sublist_strip [OF ne sp] by simp
qed

lemma plain_word_lower_preimage:
  assumes "plain_word w" and "map char_lower w' = w"
  shows "plain_word w'"
proof -
  from assms(2) have "w = map char_lower w'" by simp
  with assms(1) show ?thesis
    by (auto simp: plain_word_def list_all_iff char_lower_eq_underscore
        char_lower_separator char_lower_space)
qed

lemma sublist_lower_iff:
  "sublist w (str_lower s) = (\<exists>w'. sublist w' s \<and> w = map char_lower w')"
  unfolding str_lower_def
  using sublist_map_rightE map_mono_sublist by blast

lemma contains_normalized:
  assumes "plain_word w"
  shows "str_contains w (normalize_col_name s) = str_contains w (str_lower s)"
proof -
  let ?x = "collapse_underscores
           (map (\<lambda>c. if is_separator c then CHR ''_'' else c) (str_strip s))"
  have "sublist w (str_lower ?x) = (\<exists>w'. sublist w' ?x \<and> w = map char_lower w')"
    by (rule sublist_lower_iff)
  also have "\<dots> = (\<exists>w'. sublist w' s \<and> w = map char_lower w')"
    using plain_word_normalized plain_word_lower_preimage [OF assms] by blast
  also have "\<dots> = sublist w (str_lower s)" by (simp add: sublist_lower_iff)
  finally show ?thesis by (simp add: str_contains_sublist normalize_col_name_alt)
qed

lemma date_words_plain: "list_all plain_word date_words"
  by (simp add: date_words_def plain_word_def is_separator_def is_space_def)

lemma auto_detect_iff:
  "c \<in> set (auto_detect_date_cols df)
     \<longleftrightarrow> c \<in> set (columns df) \<and> list_ex (\<lambda>w. str_contains w (str_lower c)) date_words"
  by (auto simp: auto_detect_date_cols_def date_words_def)

lemma date_word_normalized:
  "list_ex (\<lambda>w. str_contains w (normalize_col_name c)) date_words
     = list_ex (\<lambda>w. str_contains w (str_lower c)) date_words"
proof -
  have "\<forall>w\<in>set date_words. str_contains w (normalize_col_name c) = str_contains w (str_lower c)"
    using date_words_plain contains_normalized by (auto simp: list_all_iff)
  then show ?thesis by (auto simp: list_ex_iff)
qed

lemma resolve_date_cols_value:
  "snd (resolve_date_cols flag df) = (if flag = [] then auto_detect_date_cols df else flag)"
  by (simp add: resolve_date_cols_def Let_def)

lemma resolve_date_cols_events:
  "fst (resolve_date_cols flag df) =
     (if flag \<noteq> [] then []
      else if auto_detect_date_cols df \<noteq> []
        then [Log INFO ''Auto-detected date columns: %s''
                [AStr (str_join '', '' (auto_detect_date_cols df))]]
      else [Log INFO ''No date columns provided or auto-detected.'' []])"
  by (simp add: resolve_date_cols_def Let_def)

lemma explicit_date_cols_empty:
  "explicit_date_cols a = [] \<longleftrightarrow>
     (case arg_date_cols a of
        None \<Rightarrow> True
      | Some s \<Rightarrow> list_all (\<lambda>p. str_strip p = []) (str_split (CHR '','') s))"
  by (auto simp: explicit_date_cols_def filter_empty_conv list_all_iff str_strip_def
      str_lstrip_def str_rstrip_def split: option.splits)

lemma main_after_load:
  assumes "list_all (path_exists e) (arg_input a)"
    and "str_lower (path_suffix (arg_output a)) = ''.xlsx''"
    and "snd (load_and_concat e (arg_input a)) = Inr df"
  shows "prefix
     (fst (parse_rename_arg (arg_rename a)) @ fst (load_and_concat e (arg_input a))
      @ fst (resolve_date_cols (explicit_date_cols a) df)
      @ fst (process_dataframe e df
               (map normalize_col_name (snd (resolve_date_cols (explicit_date_cols a) df)))
               (dict_comprehension (map (\<lambda>(k, v). (normalize_col_name k, v))
                  (snd (parse_rename_arg (arg_rename a)))))
               (arg_fillna a) (arg_dropna_any a) (arg_dropna_thresh a) True))
     (fst (main e a))"
proof -
  from assms(1) have "find (\<lambda>f. \<not> path_exists e f) (arg_input a) = None"
    by (simp add: find_None_iff list_all_iff)
  with assms(2,3) show ?thesis
    by (simp add: main_def split_beta Let_def split: sum.splits)
qed

text \<open>
  C7: auto-detection runs when, and only when, the user supplied no explicit date-column
  list, that is when \<open>--date-cols\<close> is absent or names no column; the columns it selects
  are then the date columns of the run, and otherwise the explicit list is. A column is
  selected if and only if its normalized name contains \<open>date\<close>, \<open>time\<close>, \<open>created\<close> or
  \<open>updated\<close>; the program tests the lower-cased header, which contains such a word
  exactly when the normalized name does, so the match ignores case.
\<close>

theorem C7_auto_detection:
  "snd (resolve_date_cols flag df) = (if flag = [] then auto_detect_date_cols df else flag)
   \<and> (fst (resolve_date_cols flag df) \<noteq> [] \<longleftrightarrow> flag = [])
   \<and> (c \<in> set (auto_detect_date_cols df)
        \<longleftrightarrow> c \<in> set (columns df)
            \<and> list_ex (\<lambda>w. str_contains w (normalize_col_name c))
                 [''date'', ''time'', ''created'', ''updated''])
   \<and> (c \<in> set (auto_detect_date_cols df)
        \<longleftrightarrow> c \<in> set (columns df)
            \<and> list_ex (\<lambda>w. str_contains w (str_lower c))
                 [''date'', ''time'', ''created'', ''updated''])
   \<and> (explicit_date_cols a = [] \<longleftrightarrow>
        (case arg_date_cols a of
           None \<Rightarrow> True
         | Some s \<Rightarrow> list_all (\<lambda>p. str_strip p = []) (str_split (CHR '','') s)))
   \<and> (list_all (path_exists e) (arg_input a)
        \<and> str_lower (path_suffix (arg_output a)) = ''.xlsx''
        \<and> snd (load_and_concat e (arg_input a)) = Inr df
      \<longrightarrow> prefix
           (fst (parse_rename_arg (arg_rename a)) @ fst (load_and_concat e (arg_input a))
            @ fst (resolve_date_cols (explicit_date_cols a) df)
            @ fst (process_dataframe e df
                     (map normalize_col_name
                        (snd (resolve_date_cols (explicit_date_cols a) df)))
                     (dict_comprehension (map (\<lambda>(k, v). (normalize_col_name k, v))
                        (snd (parse_rename_arg (arg_rename a)))))
                     (arg_fillna a) (arg_dropna_any a) (arg_dropna_thresh a) True))
           (fst (main e a)))"
proof (intro conjI impI)
  show "snd (resolve_date_cols flag df) = (if flag = [] then auto_detect_date_cols df else flag)"
    by (rule resolve_date_cols_value)
  show "fst (resolve_date_cols flag df) \<noteq> [] \<longleftrightarrow> flag = []"
    by (simp add: resolve_date_cols_events)
  show "c \<in> set (auto_detect_date_cols df)
        \<longleftrightarrow> c \<in> set (columns df)
            \<and> list_ex (\<lambda>w. str_contains w (normalize_col_name c))
                 [''date'', ''time'', ''created'', ''updated'']"
    using auto_detect_iff [of c df] date_word_normalized [of c]
    by (simp only: date_words_def)
  show "c \<in> set (auto_detect_date_cols df)
        \<longleftrightarrow> c \<in> set (columns df)
            \<and> list_ex (\<lambda>w. str_contains w (str_lower c))
                 [''date'', ''time'', ''created'', ''updated'']"
    using auto_detect_iff [of c df] by (simp only: date_words_def)
  show "explicit_date_cols a = [] \<longleftrightarrow>
        (case arg_date_cols a of
           None \<Rightarrow> True
         | Some s \<Rightarrow> list_all (\<lambda>p. str_strip p = []) (str_split (CHR '','') s))"
    by (rule explicit_date_cols_empty)
next
  assume "list_all (path_exists e) (arg_input a)
        \<and> str_lower (path_suffix (arg_output a)) = ''.xlsx''
        \<and> snd (load_and_concat e (arg_input a)) = Inr df"
  then show "prefix
           (fst (parse_rename_arg (arg_rename a)) @ fst (load_and_concat e (arg_input a))
            @ fst (resolve_date_cols (explicit_date_cols a) df)
            @ fst (process_dataframe e df
                     (map normalize_col_name
                        (snd (resolve_date_cols (explicit_date_cols a) df)))
                     (dict_comprehension (map (\<lambda>(k, v). (normalize_col_name k, v))
                        (snd (parse_rename_arg (arg_rename a)))))
                     (arg_fillna a) (arg_dropna_any a) (arg_dropna_thresh a) True))
           (fst (main e a))"
    using main_after_load by blast
qed

lemma sample_single_load:
  "list_all (path_exists sample_env) (arg_input (sample_args\<lparr>arg_input := [''data1.csv'']\<rparr>))
   \<and> str_lower (path_suffix (arg_output (sample_args\<lparr>arg_input := [''data1.csv'']\<rparr>))) = ''.xlsx''
   \<and> snd (load_and_concat sample_env (arg_input (sample_args\<lparr>arg_input := [''data1.csv'']\<rparr>)))
       = Inr sample_names"
  by code_simp

lemma sample_sale_date:
  "''Sale-Date'' \<in> set (columns sample_names)
   \<and> list_ex (\<lambda>w. str_contains w (normalize_col_name ''Sale-Date''))
        [''date'', ''time'', ''created'', ''updated'']"
  by code_simp

theorem C7_auto_detection_witness:
  "''Sale-Date'' \<in> set (auto_detect_date_cols sample_names)
   \<and> fst (resolve_date_cols [] sample_names) \<noteq> []
   \<and> snd (resolve_date_cols [] sample_names) = auto_detect_date_cols sample_names
   \<and> list_all (path_exists sample_env) (arg_input (sample_args\<lparr>arg_input := [''data1.csv'']\<rparr>))
   \<and> prefix
       (fst (parse_rename_arg (arg_rename (sample_args\<lparr>arg_input := [''data1.csv'']\<rparr>)))
        @ fst (load_and_concat sample_env (arg_input (sample_args\<lparr>arg_input := [''data1.csv'']\<rparr>)))
        @ fst (resolve_date_cols
                 (explicit_date_cols (sample_args\<lparr>arg_input := [''data1.csv'']\<rparr>)) sample_names)
        @ fst (process_dataframe sample_env sample_names
                 (map normalize_col_name
                    (snd (resolve_date_cols
                            (explicit_date_cols (sample_args\<lparr>arg_input := [''data1.csv'']\<rparr>))
                            sample_names)))
                 (dict_comprehension (map (\<lambda>(k, v). (normalize_col_name k, v))
                    (snd (parse_rename_arg
                            (arg_rename (sample_args\<lparr>arg_input := [''data1.csv'']\<rparr>))))))
                 (arg_fillna (sample_args\<lparr>arg_input := [''data1.csv'']\<rparr>))
                 (arg_dropna_any (sample_args\<lparr>arg_input := [''data1.csv'']\<rparr>))
                 (arg_dropna_thresh (sample_args\<lparr>arg_input := [''data1.csv'']\<rparr>)) True))
       (fst (main sample_env (sample_args\<lparr>arg_input := [''data1.csv'']\<rparr>)))"
  using sample_single_load sample_sale_date
    C7_auto_detection [of "[]" sample_names "''Sale-Date''"
      "sample_args\<lparr>arg_input := [''data1.csv'']\<rparr>" sample_env]
  by simp

end
